theory Spec2Isabelle
  imports Complex_Main
begin

section \<open>Electromagnetic interaction tables: calc\_electromagnetic.py\<close>

text \<open>
  Python's floats are IEEE doubles. The embedding reads a finite double as the real it
  denotes and computes with reals, except where the rounding of doubles changes the
  outcome in kind, and there it follows the doubles:
  \<^item> the exponents of \<open>np.linspace\<close> are rounded operation by operation (\<open>fl\<close>), which
    decides whether two grids share a point;
  \<^item> a difference \<open>1 - x\<close> is \<open>1.0\<close> once \<open>x \<le> 2^-54\<close>, which turns \<open>sigmaPP\<close> into
    \<open>nan\<close> and \<open>sigmaICS\<close> into \<open>inf\<close> for very large \<open>s\<close>;
  \<^item> where cancellation leaves the sign or the finiteness of a result to the rounding
    (the band above the threshold of \<open>sigmaICS\<close> that the source marks as unstable, and
    the narrow ranges next to the two cases above), the result is \<open>Unstable\<close>: a double
    that the model does not determine.
  Overflow, underflow and the size of rounding errors are outside the model.
\<close>

subsection \<open>Constants\<close>

definition eV :: real where
  "eV = 160217657 / 10 ^ 27"

definition me2 :: real where
  "me2 = (510998918 / 10 ^ 3 * eV) ^ 2"

definition sigmaThomson :: real where
  "sigmaThomson = 66524 / 10 ^ 33"

definition alpha :: real where
  "alpha = 1 / (137035999074 / 10 ^ 9)"

subsection \<open>Values and errors\<close>

datatype fval = Val real | NaN | PosInf | Unstable

text \<open>
  The exceptions the module can raise, together with the error names of the
  specification's taxonomy (\<open>UnknownProcess\<close>, \<open>IntegrationFailure\<close>, \<open>EmptyDomain\<close>,
  \<open>NonMonotoneCumulative\<close>), so that a statement can say whether one of them occurs.
\<close>

datatype error =
    KeyError
  | ZeroDivisionError
  | IndexError
  | ValueError
  | UnknownProcess
  | IntegrationFailure
  | EmptyDomain
  | NonMonotoneCumulative


subsection \<open>Cross sections\<close>

text \<open>\<open>np.log1p\<close>, for arguments above \<open>-1\<close>; at \<open>-1\<close> numpy returns \<open>-inf\<close>.\<close>

definition log1p :: "real \<Rightarrow> real" where
  "log1p x = ln (1 + x)"

text \<open>
  Once \<open>smin / s \<le> 2^-54\<close> the double \<open>1 - smin / s\<close> is \<open>1.0\<close>, so \<open>b = 1\<close>,
  \<open>log1p(-b) = -inf\<close>, the bracket is \<open>inf\<close> and its product with \<open>1 - b**2 = 0\<close> is
  \<open>nan\<close>. Up to \<open>2^-53\<close> the rounding of the quotient decides between that and a finite
  value.
\<close>

definition sigmaPP :: "real \<Rightarrow> fval" where
  "sigmaPP s =
     (let smin = 4 * me2 in
      if s < smin then Val 0
      else if smin / s \<le> 1 / 2 ^ 54 then NaN
      else if smin / s < 1 / 2 ^ 53 then Unstable
      else
        let b = sqrt (1 - smin / s) in
        Val (sigmaThomson * 3 / 16 * (1 - b ^ 2)
              * ((3 - b ^ 4) * (log1p b - log1p (- b)) - 2 * b * (2 - b ^ 2))))"

definition sigmaDPP :: "real \<Rightarrow> fval" where
  "sigmaDPP s =
     (let smin = 16 * me2 in
      if s < smin then Val 0
      else Val (645 / 10 ^ 36 * (1 - smin / s) ^ 6))"

text \<open>
  At \<open>s = smin\<close> the source computes \<open>b = 0\<close> and divides by it: \<open>2 / b\<close> is \<open>inf\<close> for
  a numpy scalar, \<open>B\<close> is \<open>inf * 0 = nan\<close>, and the product returned is \<open>nan\<close> (a plain
  Python float raises ZeroDivisionError at \<open>2 / b\<close> instead). Above it, as the source
  notes, the formula is unstable for \<open>(s - smin) / smin < 1E-5\<close>: \<open>A\<close> and \<open>B\<close> are both
  near \<open>4 / b\<close> and their difference in doubles can be zero or negative. Once
  \<open>smin / s \<le> 2^-54\<close> both \<open>s - smin\<close> and \<open>s + smin\<close> are the double \<open>s\<close>, so \<open>b = 1\<close>,
  \<open>log1p(-b) = -inf\<close>, \<open>B = -inf\<close> and the result is \<open>inf\<close>; up to \<open>2^-52\<close> the rounding
  decides whether \<open>b\<close> is 1.
\<close>

definition sigmaICS :: "real \<Rightarrow> fval" where
  "sigmaICS s =
     (let smin = me2 in
      if s < smin then Val 0
      else
        let b = (s - smin) / (s + smin) in
        if b = 0 then NaN
        else if (s - smin) / smin < 1 / 10 ^ 5 then Unstable
        else if smin / s \<le> 1 / 2 ^ 54 then PosInf
        else if smin / s < 1 / 2 ^ 52 then Unstable
        else
          let A = 2 / b / (1 + b) * (2 + 2 * b - b ^ 2 - 2 * b ^ 3);
              B = (2 - 3 * b ^ 2 - b ^ 3) / b ^ 2 * (log1p b - log1p (- b))
          in Val (sigmaThomson * 3 / 8 * smin / s / b * (A - B)))"

text \<open>
  \<open>np.log\<close> of a negative number is \<open>nan\<close>; \<open>nan < 0\<close> is false, so the product with
  \<open>nan\<close> is returned. \<open>np.log 0\<close> is \<open>-inf\<close>, which is below zero.
\<close>

definition sigmaTPP :: "real \<Rightarrow> fval" where
  "sigmaTPP s =
     (if s / me2 < 0 then NaN
      else if s / me2 = 0 then Val 0
      else
        let beta = 28 / 9 * ln (s / me2) - 218 / 27 in
        if beta < 0 then Val 0
        else Val (sigmaThomson * 3 / 8 / pi * alpha * beta))"


subsection \<open>The catalogue\<close>

text \<open>
  A cross-section argument is one of the module's four functions or any other function
  of \<open>s\<close>; the source tells them apart by identity.
\<close>

datatype sigma = SigmaPP | SigmaDPP | SigmaICS | SigmaTPP | OtherFunction "real \<Rightarrow> fval"

fun apply_sigma :: "sigma \<Rightarrow> real \<Rightarrow> fval" where
  "apply_sigma SigmaPP s = sigmaPP s"
| "apply_sigma SigmaDPP s = sigmaDPP s"
| "apply_sigma SigmaICS s = sigmaICS s"
| "apply_sigma SigmaTPP s = sigmaTPP s"
| "apply_sigma (OtherFunction f) s = f s"

text \<open>What \<open>getTabulatedXS\<close> returns: an array, or Python's \<open>False\<close>.\<close>

datatype tabulated = Array "fval list" | PyFalse

definition getTabulatedXS :: "sigma \<Rightarrow> real list \<Rightarrow> error + tabulated" where
  "getTabulatedXS sigma skin =
     (if sigma = SigmaPP \<or> sigma = SigmaDPP
        then Inr (Array (map (\<lambda>s. apply_sigma sigma s) skin))
      else if sigma = SigmaTPP \<or> sigma = SigmaICS
        then Inr (Array (map (\<lambda>s. apply_sigma sigma s) (map (\<lambda>s. s + me2) skin)))
      else Inr PyFalse)"

definition smin_table :: "sigma \<rightharpoonup> real" where
  "smin_table =
     [SigmaPP \<mapsto> 4 * me2,
      SigmaDPP \<mapsto> 16 * me2,
      SigmaTPP \<mapsto> exp ((218 / 27) / (28 / 9)) * me2 - me2,
      SigmaICS \<mapsto> 1 / 10 ^ 40 * me2]"

definition getSmin :: "sigma \<Rightarrow> error + real" where
  "getSmin sigma = (case smin_table sigma of None \<Rightarrow> Inl KeyError | Some v \<Rightarrow> Inr v)"


subsection \<open>Photon fields and the outside world\<close>

text \<open>
  A photon field of module \<open>photonField\<close>: its name and info strings and its methods
  \<open>getEmax()\<close>, \<open>getEmin()\<close> and \<open>getDensity(E)\<close>.
\<close>

record photon_field =
  field_name :: string
  field_info :: string
  field_getEmax :: real
  field_getEmin :: real
  field_getDensity :: "real \<Rightarrow> real"

text \<open>
  The tuple \<open>scipy.integrate.quad\<close> returns under \<open>full_output=1\<close>: the estimate, the
  error bound and, when the integration did not converge, a message (no warning is
  issued and nothing is raised).
\<close>

record quad_result =
  estimate :: real
  abserr :: real
  message :: "string option"

text \<open>
  The functions the module imports: \<open>quad\<close>, the two modes of
  \<open>interactionRate.calc_rate_s\<close> (scalar, and \<open>cdf=True\<close>), and
  \<open>gitHelp.get_git_revision_hash\<close> (\<open>None\<close> when it raises). They are parameters of
  the model.
\<close>

record externals =
  quad :: "(real \<Rightarrow> real) \<Rightarrow> real \<Rightarrow> real \<Rightarrow> quad_result"
  calc_rate_s :: "real list \<Rightarrow> tabulated \<Rightarrow> real list \<Rightarrow> photon_field \<Rightarrow> error + real list"
  calc_rate_s_cdf :: "real list \<Rightarrow> tabulated \<Rightarrow> real list \<Rightarrow> photon_field \<Rightarrow> error + real list list"
  get_git_revision_hash :: "string option"

text \<open>
  A saved text file is its header and its rows of numbers (the rounding of the format
  strings is not modelled). The world is the directories and files on disk and the
  number of calls made to \<open>quad\<close> so far.
\<close>

datatype content = Table string "real list list"

record world =
  dirs :: "string set"
  files :: "string \<rightharpoonup> content"
  quad_calls :: nat

definition isdir :: "world \<Rightarrow> string \<Rightarrow> bool" where
  "isdir w p = (p \<in> dirs w)"

definition isfile :: "world \<Rightarrow> string \<Rightarrow> bool" where
  "isfile w p = (p \<in> dom (files w))"

definition path_exists :: "world \<Rightarrow> string \<Rightarrow> bool" where
  "path_exists w p = (isdir w p \<or> isfile w p)"

definition makedirs :: "world \<Rightarrow> string \<Rightarrow> world" where
  "makedirs w p = w\<lparr>dirs := insert p (dirs w)\<rparr>"

definition savetxt :: "world \<Rightarrow> string \<Rightarrow> real list list \<Rightarrow> string \<Rightarrow> world" where
  "savetxt w p data header = w\<lparr>files := (files w)(p \<mapsto> Table header data)\<rparr>"

subsection \<open>Grids\<close>

text \<open>
  Rounding to the nearest double, ties to the even mantissa (\<open>rne\<close> rounds to the
  nearest integer, ties to even), for the normal range of doubles.
\<close>

definition rne :: "real \<Rightarrow> int" where
  "rne x =
     (let f = \<lfloor>x\<rfloor> in
      if x - of_int f < 1 / 2 then f
      else if 1 / 2 < x - of_int f then f + 1
      else if even f then f else f + 1)"

definition fl :: "real \<Rightarrow> real" where
  "fl x =
     (if x = 0 then 0
      else
        let e = \<lfloor>log 2 \<bar>x\<bar>\<rfloor>;
            u = 2 powr (of_int e - 52)
        in sgn x * of_int (rne (\<bar>x\<bar> / u)) * u)"

text \<open>
  \<open>np.linspace\<close> computes \<open>step = (stop - start) / (num - 1)\<close> and
  \<open>arange(num) * step + start\<close> in doubles, each operation rounded, and then stores
  \<open>stop\<close> in the last place; \<open>np.logspace\<close> raises 10 to it (the power itself is read
  as exact).
\<close>

definition linspace :: "real \<Rightarrow> real \<Rightarrow> nat \<Rightarrow> real list" where
  "linspace start stop num =
     (let step = fl (fl (stop - start) / real (num - 1));
          y = map (\<lambda>i. fl (fl (real i * step) + start)) [0..<num]
      in if 1 < num then y[num - 1 := stop] else y)"

definition logspace :: "real \<Rightarrow> real \<Rightarrow> nat \<Rightarrow> real list" where
  "logspace start stop num = map (\<lambda>y. 10 powr y) (linspace start stop num)"

subsection \<open>Minimum energy\<close>

text \<open>
  Division by a zero \<open>getEmax()\<close> raises for Python floats. (For \<open>sigmaTPP\<close> the
  threshold is a numpy scalar and the quotient would be \<open>inf\<close>; a photon field has a
  positive maximum energy, and the statements below assume it where it matters.)
\<close>

definition getEmin :: "sigma \<Rightarrow> photon_field \<Rightarrow> error + real" where
  "getEmin sigma field =
     (case getSmin sigma of
        Inl e \<Rightarrow> Inl e
      | Inr smin \<Rightarrow>
          if field_getEmax field = 0 then Inl ZeroDivisionError
          else Inr (smin / 4 / field_getEmax field))"

subsection \<open>The density integral\<close>

definition density_file :: "photon_field \<Rightarrow> string" where
  "density_file field = ''data/fieldDensity/'' @ field_name field @ ''.txt''"

text \<open>The lower bounds \<open>alpha\<close> of \<open>calculateDensityIntegral\<close> (for \<open>getEmax() > 0\<close>).\<close>

definition density_alpha :: "photon_field \<Rightarrow> real list" where
  "density_alpha field =
     (let Emax = field_getEmax field;
          Emin = 10 ^ 4 / 4 / 10 ^ 23 * eV
      in logspace (log 10 Emin) (log 10 Emax) 10000)"

definition density_header :: "externals \<Rightarrow> string" where
  "density_header ext =
     (let header = ''# calculate integral n(e)/e^2 de from eMin to eMax, where eMax is the maximal photon energy of the background '' @ [CHR 0x0A]
      in case get_git_revision_hash ext of
           Some git_hash \<Rightarrow>
             header @ ''Produced with crpropa-data version: '' @ git_hash @ [CHR 0x0A]
               @ ''# eMin [eV]'' @ [CHR 0x09] @ ''integral'' @ [CHR 0x0A]
         | None \<Rightarrow> header @ ''# eMin [eV]'' @ [CHR 0x09] @ ''integral'' @ [CHR 0x0A])"

definition calculateDensityIntegral :: "externals \<Rightarrow> photon_field \<Rightarrow> world \<Rightarrow> error + world" where
  "calculateDensityIntegral ext field w =
     (let Emax = field_getEmax field;
          alpha = density_alpha field;
          folder = ''data/fieldDensity/'';
          w1 = (if \<not> isdir w folder then makedirs w folder else w);
          file = folder @ field_name field @ ''.txt''
      in if isfile w1 file then Inr w1
         else
           let integrand = (\<lambda>E. field_getDensity field E / E ^ 2);
               I_gamma = map (\<lambda>a. estimate (quad ext integrand a Emax)) alpha;
               w2 = w1\<lparr>quad_calls := quad_calls w1 + length alpha\<rparr>;
               data = map2 (\<lambda>a i. [a, i]) alpha I_gamma
           in Inr (savetxt w2 file data (density_header ext)))"

subsection \<open>Interpolation\<close>

text \<open>
  \<open>np.interp\<close> for increasing sample points \<open>xp\<close> (its precondition; \<open>process\<close> passes
  an increasing grid): constant outside the range of \<open>xp\<close>, the sample value at a sample
  point, the chord between the two neighbouring samples elsewhere. It raises ValueError
  for empty \<open>xp\<close> and for \<open>fp\<close> of another length.
\<close>

fun interp_pts :: "real \<Rightarrow> (real \<times> real) list \<Rightarrow> real" where
  "interp_pts x [] = 0"
| "interp_pts x [(x0, y0)] = y0"
| "interp_pts x ((x0, y0) # (x1, y1) # ps) =
     (if x < x1
        then (if x = x0 then y0 else (y1 - y0) / (x1 - x0) * (x - x0) + y0)
      else interp_pts x ((x1, y1) # ps))"

definition interp1 :: "real \<Rightarrow> real list \<Rightarrow> real list \<Rightarrow> real" where
  "interp1 x xp fp =
     (if x < hd xp then hd fp
      else if last xp < x then last fp
      else interp_pts x (zip xp fp))"

definition interp :: "real list \<Rightarrow> real list \<Rightarrow> real list \<Rightarrow> error + real list" where
  "interp x xp fp =
     (if xp = [] then Inl ValueError
      else if length fp \<noteq> length xp then Inl ValueError
      else Inr (map (\<lambda>v. interp1 v xp fp) x))"

fun interp_rows :: "real list \<Rightarrow> real list \<Rightarrow> real list list \<Rightarrow> error + real list list" where
  "interp_rows x xp [] = Inr []"
| "interp_rows x xp (r # rs) =
     (case interp x xp r of
        Inl e \<Rightarrow> Inl e
      | Inr v \<Rightarrow> (case interp_rows x xp rs of Inl e \<Rightarrow> Inl e | Inr vs \<Rightarrow> Inr (v # vs)))"

subsection \<open>The pipeline\<close>

text \<open>The grids of \<open>process\<close>, named after its local variables.\<close>

definition process_E :: "real \<Rightarrow> real list" where
  "process_E Emin = filter (\<lambda>e. Emin < e) (map (\<lambda>x. x * eV) (logspace 9 23 281))"

definition process_s_kin :: "real list" where
  "process_s_kin = map (\<lambda>x. x * eV ^ 2) (logspace 4 23 (2 ^ 18 + 1))"

definition process_skin :: "real \<Rightarrow> real list" where
  "process_skin skin_min =
     filter (\<lambda>x. skin_min < x) (map (\<lambda>x. x * eV ^ 2) (logspace 4 23 (380000 + 1)))"

definition process_skin_save :: "real \<Rightarrow> real list" where
  "process_skin_save skin_min =
     filter (\<lambda>x. skin_min < x) (map (\<lambda>x. x * eV ^ 2) (logspace 4 23 (190 + 1)))"

definition rate_file :: "string \<Rightarrow> photon_field \<Rightarrow> string" where
  "rate_file pname field = (''data/'' @ pname) @ ''/rate_'' @ field_name field @ ''.txt''"

definition cdf_file :: "string \<Rightarrow> photon_field \<Rightarrow> string" where
  "cdf_file pname field = (''data/'' @ pname) @ ''/cdf_'' @ field_name field @ ''.txt''"

definition rate_header :: "externals \<Rightarrow> string \<Rightarrow> photon_field \<Rightarrow> string" where
  "rate_header ext pname field =
     (case get_git_revision_hash ext of
        Some git_hash \<Rightarrow>
          pname @ '' interaction rates'' @ [CHR 0x0A] @ ''photon field: '' @ field_info field @ [CHR 0x0A]
            @ ''Produced with crpropa-data version: '' @ git_hash @ [CHR 0x0A]
            @ ''log10(E/eV), 1/lambda [1/Mpc]''
      | None \<Rightarrow>
          pname @ '' interaction rates'' @ [CHR 0x0A] @ ''photon field: '' @ field_info field @ [CHR 0x0A]
            @ ''log10(E/eV), 1/lambda [1/Mpc]'')"

definition cdf_header :: "externals \<Rightarrow> string \<Rightarrow> photon_field \<Rightarrow> string" where
  "cdf_header ext pname field =
     (case get_git_revision_hash ext of
        Some git_hash \<Rightarrow>
          pname @ '' cumulative differential rate'' @ [CHR 0x0A] @ ''photon field: '' @ field_info field @ [CHR 0x0A]
            @ ''Produced with crpropa-data version: '' @ git_hash @ [CHR 0x0A]
            @ ''log10(E/eV), d(1/lambda)/ds_kin [1/Mpc/eV^2] for log10(s_kin/eV^2) as given in first row''
      | None \<Rightarrow>
          pname @ '' cumulative differential rate'' @ [CHR 0x0A] @ ''photon field: '' @ field_info field @ [CHR 0x0A]
            @ ''log10(E/eV), d(1/lambda)/ds_kin [1/Mpc/eV^2] for log10(s_kin/eV^2) as given in first row'')"

text \<open>
  Lines 129-130 of \<open>process\<close>: the density integral is computed only when its file is
  missing.
\<close>

definition process_density :: "externals \<Rightarrow> photon_field \<Rightarrow> world \<Rightarrow> error + world" where
  "process_density ext field w =
     (if \<not> isfile w (''data/fieldDensity/'' @ field_name field @ ''.txt'')
        then calculateDensityIntegral ext field w
      else Inr w)"

text \<open>
  The second half of \<open>process\<close>, from \<open>skin1 = getSmin(sigma)\<close> on. \<open>E[0]\<close> raises
  IndexError on an empty grid; \<open>np.c_\<close> raises ValueError when the rows of the rate
  table are not as many as the energies.
\<close>

definition process_cdf ::
  "externals \<Rightarrow> sigma \<Rightarrow> photon_field \<Rightarrow> string \<Rightarrow> real list \<Rightarrow> world \<Rightarrow> error + world" where
  "process_cdf ext sigma field pname E w =
     (case getSmin sigma of
        Inl e \<Rightarrow> Inl e
      | Inr skin1 \<Rightarrow>
     (case E of
        [] \<Rightarrow> Inl IndexError
      | E0 # _ \<Rightarrow>
     (let skin2 = 4 * field_getEmin field * E0;
          skin_min = max skin1 skin2;
          skin = process_skin skin_min
      in
     (case getTabulatedXS sigma skin of
        Inl e \<Rightarrow> Inl e
      | Inr xs \<Rightarrow>
     (case calc_rate_s_cdf ext skin xs E field of
        Inl e \<Rightarrow> Inl e
      | Inr rate \<Rightarrow>
     (let skin_save = process_skin_save skin_min in
     (case interp_rows skin_save skin rate of
        Inl e \<Rightarrow> Inl e
      | Inr rate_save \<Rightarrow>
          if length rate_save \<noteq> length E then Inl ValueError
          else
            let data = map2 (\<lambda>e r. log 10 (e / eV) # r) E rate_save;
                row0 = 0 # map (\<lambda>x. log 10 (x / eV ^ 2)) skin_save
            in Inr (savetxt w (cdf_file pname field) (row0 # data)
                      (cdf_header ext pname field)))))))))"

definition process ::
  "externals \<Rightarrow> sigma \<Rightarrow> photon_field \<Rightarrow> string \<Rightarrow> world \<Rightarrow> error + world" where
  "process ext sigma field pname w =
     (let folder = ''data/'' @ pname;
          w1 = (if \<not> path_exists w folder then makedirs w folder else w)
      in
     (case getEmin sigma field of
        Inl e \<Rightarrow> Inl e
      | Inr Emin \<Rightarrow>
     (let E = process_E Emin in
     (case process_density ext field w1 of
        Inl e \<Rightarrow> Inl e
      | Inr w2 \<Rightarrow>
     (let s_kin = process_s_kin in
     (case getTabulatedXS sigma s_kin of
        Inl e \<Rightarrow> Inl e
      | Inr xs \<Rightarrow>
     (case calc_rate_s ext s_kin xs E field of
        Inl e \<Rightarrow> Inl e
      | Inr rate \<Rightarrow>
          if length rate \<noteq> length E then Inl ValueError
          else
            let data = map2 (\<lambda>e r. [log 10 (e / eV), r]) E rate;
                w3 = savetxt w2 (rate_file pname field) data (rate_header ext pname field)
            in process_cdf ext sigma field pname E w3)))))))"

text \<open>Example values: a field, stand-ins for the imported functions, an empty disk.\<close>

definition example_field :: photon_field where
  "example_field =
     \<lparr>field_name = ''CMB'', field_info = ''CMB'',
      field_getEmax = 1 / 10 ^ 2 * eV, field_getEmin = 1 / 10 ^ 10 * eV,
      field_getDensity = (\<lambda>E. 1)\<rparr>"

definition example_externals :: externals where
  "example_externals =
     \<lparr>quad = (\<lambda>f a b. \<lparr>estimate = 0, abserr = 0, message = Some ''The integral is probably divergent''\<rparr>),
      calc_rate_s = (\<lambda>skin xs E field. Inr (map (\<lambda>e. 0) E)),
      calc_rate_s_cdf = (\<lambda>skin xs E field. Inr (map (\<lambda>e. map (\<lambda>s. 0) skin) E)),
      get_git_revision_hash = None\<rparr>"

definition empty_world :: world where
  "empty_world = \<lparr>dirs = {}, files = Map.empty, quad_calls = 0\<rparr>"

text \<open>
  Misconfigured inputs: a field so soft that pair production is out of reach of every
  tabulated energy, a field whose minimum photon energy puts every collision above the
  \<open>s_kin\<close> grid, and a rate engine that raises.
\<close>

definition soft_field :: photon_field where
  "soft_field = example_field\<lparr>field_getEmax := me2 / (10 ^ 24 * eV)\<rparr>"

definition hard_field :: photon_field where
  "hard_field = example_field\<lparr>field_getEmin := 10 ^ 23 * eV\<rparr>"

definition raising_externals :: externals where
  "raising_externals = example_externals\<lparr>calc_rate_s := (\<lambda>skin xs E field. Inl EmptyDomain)\<rparr>"




section \<open>Properties\<close>

subsection \<open>Basic facts about the constants\<close>

lemma eV_pos: "0 < eV"
  by (simp add: eV_def)

lemma me2_pos: "0 < me2"
  by (simp add: me2_def eV_def)





subsection \<open>Bounds on the logarithmic difference\<close>





subsection \<open>Signs of the cross sections\<close>











subsection \<open>The stable logarithm of pair production\<close>










subsection \<open>Thresholds and signs of the cross sections\<close>




subsection \<open>Functions outside the catalogue\<close>

text \<open>
  C2, amended. For a function that is not one of the four cross sections,
  \<open>getTabulatedXS\<close> returns \<open>False\<close> and \<open>getSmin\<close> raises KeyError.
\<close>

theorem unknown_selector:
  "getTabulatedXS (OtherFunction f) skin = Inr PyFalse
   \<and> getSmin (OtherFunction f) = Inl KeyError"
  by (simp add: getTabulatedXS_def getSmin_def smin_table_def)

text \<open>Neither call fails with \<open>UnknownProcess\<close>.\<close>

theorem unknown_selector_counterexample:
  "getTabulatedXS (OtherFunction Val) [1] \<noteq> Inl UnknownProcess
   \<and> getSmin (OtherFunction Val) \<noteq> Inl UnknownProcess"
  by (simp add: getTabulatedXS_def getSmin_def smin_table_def)

subsection \<open>The density-integral cache\<close>

lemma calculateDensityIntegral_hit:
  assumes "isfile w (density_file field)"
  shows "calculateDensityIntegral ext field w
         = Inr (if \<not> isdir w ''data/fieldDensity/'' then makedirs w ''data/fieldDensity/'' else w)"
  using assms
  by (simp add: calculateDensityIntegral_def Let_def isfile_def density_file_def makedirs_def)

lemma calculateDensityIntegral_miss:
  assumes "\<not> isfile w (density_file field)"
  shows "calculateDensityIntegral ext field w
         = Inr (savetxt
                 ((if \<not> isdir w ''data/fieldDensity/'' then makedirs w ''data/fieldDensity/'' else w)
                    \<lparr>quad_calls := quad_calls w + length (density_alpha field)\<rparr>)
                 (density_file field)
                 (map (\<lambda>a. [a, estimate (quad ext (\<lambda>E. field_getDensity field E / E ^ 2) a
                                        (field_getEmax field))]) (density_alpha field))
                 (density_header ext))"
proof -
  have z: "map2 (\<lambda>a i. [a, i]) xs (map f xs) = map (\<lambda>a. [a, f a]) xs" for f :: "real \<Rightarrow> real" and xs
    by (induction xs) simp_all
  show ?thesis
    using assms
    by (simp add: calculateDensityIntegral_def Let_def isfile_def density_file_def makedirs_def z)
qed

lemma calculateDensityIntegral_total:
  "\<exists>w'. calculateDensityIntegral ext field w = Inr w'"
  by (cases "isfile w (density_file field)")
     (simp_all add: calculateDensityIntegral_hit calculateDensityIntegral_miss)

lemma calculateDensityIntegral_post:
  assumes "calculateDensityIntegral ext field w = Inr w'"
  shows "isfile w' (density_file field)" "isdir w' ''data/fieldDensity/''"
proof -
  show "isfile w' (density_file field)"
  proof (cases "isfile w (density_file field)")
    case True
    then show ?thesis using assms
      by (auto simp: calculateDensityIntegral_hit isfile_def makedirs_def split: if_splits)
  next
    case False
    then show ?thesis using assms
      by (auto simp: calculateDensityIntegral_miss isfile_def savetxt_def)
  qed
  show "isdir w' ''data/fieldDensity/''"
  proof (cases "isfile w (density_file field)")
    case True
    then show ?thesis using assms
      by (auto simp: calculateDensityIntegral_hit isdir_def makedirs_def split: if_splits)
  next
    case False
    then show ?thesis using assms
      by (auto simp: calculateDensityIntegral_miss isdir_def savetxt_def makedirs_def split: if_splits)
  qed
qed

lemma calculateDensityIntegral_again:
  assumes "calculateDensityIntegral ext field w = Inr w'"
  shows "calculateDensityIntegral ext field w' = Inr w'"
  using calculateDensityIntegral_post [OF assms]
  by (simp add: calculateDensityIntegral_hit)

text \<open>
  C3. When the file of the field already exists, \<open>calculateDensityIntegral\<close> makes no
  call to \<open>quad\<close> and leaves every file as it is; a second invocation, directly or
  through the check in \<open>process\<close>, returns the world the first one produced.
\<close>

theorem density_cache_idempotent:
  "(isfile w (density_file field) \<longrightarrow>
      (\<exists>w'. calculateDensityIntegral ext field w = Inr w'
            \<and> files w' = files w \<and> quad_calls w' = quad_calls w))
   \<and> (\<exists>w1. calculateDensityIntegral ext field w = Inr w1
            \<and> calculateDensityIntegral ext field w1 = Inr w1)
   \<and> (\<exists>w1. process_density ext field w = Inr w1
            \<and> process_density ext field w1 = Inr w1)"
proof (intro conjI impI)
  assume "isfile w (density_file field)"
  then show "\<exists>w'. calculateDensityIntegral ext field w = Inr w'
            \<and> files w' = files w \<and> quad_calls w' = quad_calls w"
    by (simp add: calculateDensityIntegral_hit makedirs_def)
next
  obtain w1 where w1: "calculateDensityIntegral ext field w = Inr w1"
    using calculateDensityIntegral_total by blast
  then show "\<exists>w1. calculateDensityIntegral ext field w = Inr w1
            \<and> calculateDensityIntegral ext field w1 = Inr w1"
    using calculateDensityIntegral_again by blast
  show "\<exists>w1. process_density ext field w = Inr w1 \<and> process_density ext field w1 = Inr w1"
  proof (cases "isfile w (density_file field)")
    case True
    then show ?thesis by (simp add: process_density_def density_file_def)
  next
    case False
    then have "process_density ext field w = Inr w1"
      using w1 by (simp add: process_density_def density_file_def)
    moreover have "process_density ext field w1 = Inr w1"
      using calculateDensityIntegral_post(1) [OF w1] by (simp add: process_density_def density_file_def)
    ultimately show ?thesis by blast
  qed
qed

theorem density_cache_idempotent_witness:
  "isfile (savetxt empty_world (density_file example_field) [] []) (density_file example_field)
   \<and> (\<exists>w'. calculateDensityIntegral example_externals example_field
             (savetxt empty_world (density_file example_field) [] []) = Inr w'
          \<and> files w' = files (savetxt empty_world (density_file example_field) [] [])
          \<and> quad_calls w' = quad_calls (savetxt empty_world (density_file example_field) [] []))"
proof -
  have h: "isfile (savetxt empty_world (density_file example_field) [] []) (density_file example_field)"
    by (simp add: isfile_def savetxt_def)
  show ?thesis
    using h density_cache_idempotent [of "savetxt empty_world (density_file example_field) [] []"
        example_field example_externals]
    by blast
qed

text \<open>
  C4, amended. \<open>calculateDensityIntegral\<close> raises nothing; when the file is missing it
  calls \<open>quad\<close> once for each lower bound and stores the estimate \<open>quad\<close> returned for
  it, whether or not \<open>quad\<close> reported convergence.
\<close>

theorem density_integral_stores_estimates:
  "\<exists>w'. calculateDensityIntegral ext field w = Inr w'
     \<and> (\<not> isfile w (density_file field) \<longrightarrow>
          quad_calls w' = quad_calls w + length (density_alpha field)
          \<and> files w' (density_file field)
            = Some (Table (density_header ext)
                (map (\<lambda>a. [a, estimate (quad ext (\<lambda>E. field_getDensity field E / E ^ 2) a
                                       (field_getEmax field))]) (density_alpha field))))"
proof (cases "isfile w (density_file field)")
  case True
  then show ?thesis by (simp add: calculateDensityIntegral_hit)
next
  case False
  then show ?thesis by (simp add: calculateDensityIntegral_miss savetxt_def)
qed

theorem density_integral_stores_estimates_witness:
  "\<not> isfile empty_world (density_file example_field)
   \<and> (\<exists>w'. calculateDensityIntegral example_externals example_field empty_world = Inr w'
        \<and> files w' (density_file example_field)
            = Some (Table (density_header example_externals)
                (map (\<lambda>a. [a, 0]) (density_alpha example_field))))"
proof -
  have h: "\<not> isfile empty_world (density_file example_field)"
    by (simp add: isfile_def empty_world_def)
  have e: "estimate (quad example_externals f a b) = 0" for f a b
    by (simp add: example_externals_def)
  show ?thesis
    using h density_integral_stores_estimates [of example_externals example_field empty_world]
    by (auto simp: e)
qed

text \<open>
  With a \<open>quad\<close> that reports non-convergence at every bound, the table is written all
  the same and no \<open>IntegrationFailure\<close> is raised.
\<close>

theorem density_integral_stores_estimates_counterexample:
  "calculateDensityIntegral example_externals example_field empty_world \<noteq> Inl IntegrationFailure
   \<and> isfile (projr (calculateDensityIntegral example_externals example_field empty_world))
        (density_file example_field)
   \<and> message (quad example_externals (field_getDensity example_field) 1 2) \<noteq> None"
proof -
  obtain w' where w: "calculateDensityIntegral example_externals example_field empty_world = Inr w'"
    using calculateDensityIntegral_total by blast
  have "isfile w' (density_file example_field)"
    using calculateDensityIntegral_post(1) [OF w] .
  then show ?thesis using w by (simp add: example_externals_def)
qed

subsection \<open>Rounding to doubles\<close>

lemma rne_err: "\<bar>of_int (rne x) - x\<bar> \<le> 1 / 2"
proof -
  have "of_int \<lfloor>x\<rfloor> \<le> x" "x < of_int \<lfloor>x\<rfloor> + 1" by linarith+
  then show ?thesis by (auto simp: rne_def Let_def)
qed

lemma rne_near:
  assumes "\<bar>x - of_int m\<bar> < 1 / 2"
  shows "rne x = m"
proof -
  have a: "of_int \<lfloor>x\<rfloor> \<le> x" "x < of_int \<lfloor>x\<rfloor> + 1" by linarith+
  show ?thesis
  proof (cases "of_int m \<le> x")
    case True
    then have "\<lfloor>x\<rfloor> = m" using assms by (intro floor_unique) auto
    then show ?thesis using assms True by (simp add: rne_def Let_def)
  next
    case False
    then have f: "\<lfloor>x\<rfloor> = m - 1" using assms by (intro floor_unique) auto
    then have "1 / 2 < x - of_int \<lfloor>x\<rfloor>" using assms False by simp
    then show ?thesis using f by (simp add: rne_def Let_def)
  qed
qed


lemma fl_err: "\<bar>fl x - x\<bar> \<le> \<bar>x\<bar> / 2 ^ 53"
proof (cases "x = 0")
  case True
  then show ?thesis by (simp add: fl_def)
next
  case False
  define e where "e = \<lfloor>log 2 \<bar>x\<bar>\<rfloor>"
  define u :: real where "u = 2 powr (of_int e - 52)"
  have ax: "0 < \<bar>x\<bar>" using False by simp
  have u: "0 < u" by (simp add: u_def)
  have "of_int e \<le> log 2 \<bar>x\<bar>" by (simp add: e_def)
  then have "2 powr of_int e \<le> 2 powr log 2 \<bar>x\<bar>" by simp
  then have pe: "2 powr of_int e \<le> \<bar>x\<bar>" using ax by simp
  have ue: "u = 2 powr of_int e / 2 ^ 52"
    by (simp add: u_def powr_diff)
  have flx: "fl x = sgn x * (of_int (rne (\<bar>x\<bar> / u)) * u)"
    using False by (simp add: fl_def Let_def e_def u_def)
  have "x = sgn x * \<bar>x\<bar>" by (simp add: sgn_mult_abs)
  then have "fl x - x = sgn x * (of_int (rne (\<bar>x\<bar> / u)) * u - \<bar>x\<bar>)"
    using flx by (simp add: algebra_simps)
  then have "\<bar>fl x - x\<bar> = \<bar>of_int (rne (\<bar>x\<bar> / u)) * u - \<bar>x\<bar>\<bar>"
    using False by (simp add: abs_mult abs_sgn_eq)
  also have "of_int (rne (\<bar>x\<bar> / u)) * u - \<bar>x\<bar> = (of_int (rne (\<bar>x\<bar> / u)) - \<bar>x\<bar> / u) * u"
    using u by (simp add: algebra_simps)
  also have "\<bar>\<dots>\<bar> = \<bar>of_int (rne (\<bar>x\<bar> / u)) - \<bar>x\<bar> / u\<bar> * u"
    using u by (simp add: abs_mult)
  also have "\<dots> \<le> 1 / 2 * u"
    using rne_err [of "\<bar>x\<bar> / u"] u by (intro mult_right_mono) auto
  also have "\<dots> = 2 powr of_int e / 2 ^ 53" by (simp add: ue)
  also have "\<dots> \<le> \<bar>x\<bar> / 2 ^ 53" using pe by (simp add: divide_right_mono)
  finally show ?thesis .
qed

lemma fl_bounds:
  assumes "0 \<le> x"
  shows "x * (1 - 1 / 2 ^ 53) \<le> fl x" "fl x \<le> x * (1 + 1 / 2 ^ 53)"
proof -
  have "\<bar>fl x - x\<bar> \<le> x / 2 ^ 53" using fl_err [of x] assms by simp
  then have a: "fl x - x \<le> x / 2 ^ 53" "x - fl x \<le> x / 2 ^ 53" by linarith+
  have b: "x * (1 - 1 / 2 ^ 53) = x - x / 2 ^ 53" "x * (1 + 1 / 2 ^ 53) = x + x / 2 ^ 53"
    by (simp_all only: right_diff_distrib distrib_left mult_1_right times_divide_eq_right)
  show "x * (1 - 1 / 2 ^ 53) \<le> fl x" unfolding b(1) using a(2) by linarith
  show "fl x \<le> x * (1 + 1 / 2 ^ 53)" unfolding b(2) using a(1) by linarith
qed

lemma fl_nonneg: "0 \<le> x \<Longrightarrow> 0 \<le> fl x"
proof -
  assume x: "0 \<le> x"
  have "0 \<le> x * (1 - 1 / 2 ^ 53)" using x by simp
  then show ?thesis using fl_bounds(1) [OF x] by linarith
qed


lemma fl_eq:
  assumes "0 < x" "2 ^ 52 \<le> x * 2 ^ n" "x * 2 ^ n < 2 ^ 53" "rne (x * 2 ^ n) = m"
  shows "fl x = of_int m / 2 ^ n"
proof -
  have lo: "2 powr (52 - real n) \<le> x"
    using assms(2) by (simp add: powr_diff powr_realpow field_simps)
  have hi: "x < 2 powr (53 - real n)"
    using assms(3) by (simp add: powr_diff powr_realpow field_simps)
  have "52 - real n \<le> log 2 x" using lo assms(1) by (simp add: le_log_iff)
  moreover have "log 2 x < 53 - real n" using hi assms(1) by (simp add: log_less_iff)
  ultimately have "\<lfloor>log 2 x\<rfloor> = 52 - int n"
    by (intro floor_unique) auto
  then have e: "\<lfloor>log 2 \<bar>x\<bar>\<rfloor> = 52 - int n" using assms(1) by simp
  have u: "(2::real) powr (of_int (52 - int n) - 52) = 1 / 2 ^ n"
    by (simp add: powr_minus powr_realpow inverse_eq_divide)
  show ?thesis
    using assms(1,4) unfolding fl_def Let_def e u by simp
qed

subsection \<open>Grids\<close>

lemma length_linspace: "length (linspace a b n) = n"
  by (simp add: linspace_def Let_def)

lemma linspace_nth:
  assumes "1 < n" "i < n"
  shows "linspace a b n ! i =
           (if i = n - 1 then b
            else fl (fl (real i * fl (fl (b - a) / real (n - 1))) + a))"
  using assms by (simp add: linspace_def Let_def)

lemma length_logspace: "length (logspace a b n) = n"
  by (simp add: logspace_def length_linspace)

lemma logspace_nth:
  assumes "i < n"
  shows "logspace a b n ! i = 10 powr (linspace a b n ! i)"
  using assms by (simp add: logspace_def length_linspace)

lemma logspace_pos: "x \<in> set (logspace a b n) \<Longrightarrow> 0 < x"
  by (auto simp: logspace_def)

text \<open>The rounded affine map stays within two relative roundings of the exact one.\<close>

lemma affine_bounds:
  assumes "0 \<le> z" "0 \<le> a"
  shows "(z * (1 - 1 / 2 ^ 53) + a) * (1 - 1 / 2 ^ 53) \<le> fl (fl z + a)"
    and "fl (fl z + a) \<le> (z * (1 + 1 / 2 ^ 53) + a) * (1 + 1 / 2 ^ 53)"
proof -
  have w: "0 \<le> fl z + a" using fl_nonneg [OF assms(1)] assms(2) by simp
  have lo: "z * (1 - 1 / 2 ^ 53) + a \<le> fl z + a" using fl_bounds(1) [OF assms(1)] by simp
  have hi: "fl z + a \<le> z * (1 + 1 / 2 ^ 53) + a" using fl_bounds(2) [OF assms(1)] by simp
  have "(z * (1 - 1 / 2 ^ 53) + a) * (1 - 1 / 2 ^ 53) \<le> (fl z + a) * (1 - 1 / 2 ^ 53)"
    using lo by (intro mult_right_mono) simp_all
  then show "(z * (1 - 1 / 2 ^ 53) + a) * (1 - 1 / 2 ^ 53) \<le> fl (fl z + a)"
    using fl_bounds(1) [OF w] by (rule order_trans)
  have "(fl z + a) * (1 + 1 / 2 ^ 53) \<le> (z * (1 + 1 / 2 ^ 53) + a) * (1 + 1 / 2 ^ 53)"
    using hi by (intro mult_right_mono) simp_all
  then show "fl (fl z + a) \<le> (z * (1 + 1 / 2 ^ 53) + a) * (1 + 1 / 2 ^ 53)"
    using fl_bounds(2) [OF w] by (rule order_trans [rotated])
qed

lemma step_gap:
  fixes p s a D e :: real
  assumes "0 \<le> e" "p \<le> D" "(4 * D + 2 * a) * e < s * (1 - e)\<^sup>2"
  shows "(p * (1 + e) + a) * (1 + e) < ((p + s) * (1 - e) + a) * (1 - e)"
proof -
  have "((p + s) * (1 - e) + a) * (1 - e) - (p * (1 + e) + a) * (1 + e)
        = s * (1 - e)\<^sup>2 - (4 * (e * p) + 2 * (a * e))"
    by (simp add: algebra_simps power2_eq_square)
  moreover have "e * p \<le> e * D" using assms(1,2) by (rule mult_left_mono [rotated])
  moreover have "(4 * D + 2 * a) * e = 4 * (e * D) + 2 * (a * e)" by (simp add: algebra_simps)
  ultimately show ?thesis using assms(3) by linarith
qed

lemma upper_mono:
  fixes p q a e :: real
  assumes "0 \<le> e" "p \<le> q"
  shows "(p * (1 + e) + a) * (1 + e) \<le> (q * (1 + e) + a) * (1 + e)"
  using assms by (intro mult_right_mono add_right_mono) simp_all

lemma lower_mono:
  fixes p q a e :: real
  assumes "e \<le> 1" "p \<le> q"
  shows "(p * (1 - e) + a) * (1 - e) \<le> (q * (1 - e) + a) * (1 - e)"
  using assms by (intro mult_right_mono add_right_mono) simp_all

lemma linspace_strict:
  fixes a b D s :: real
  assumes sdef: "s = fl (fl (b - a) / real (n - 1))"
    and a: "0 \<le> a" and s: "0 \<le> s" and D: "real n * s \<le> D"
    and gap: "(4 * D + 2 * a) * (1 / 2 ^ 53) < s * (1 - 1 / 2 ^ 53)\<^sup>2"
    and top: "(real (n - 2) * s * (1 + 1 / 2 ^ 53) + a) * (1 + 1 / 2 ^ 53) < b"
  shows "sorted_wrt (<) (linspace a b n)"
proof (cases "1 < n")
  case False
  then have "length (linspace a b n) \<le> 1" by (simp add: length_linspace)
  then show ?thesis by (rule sorted_wrt01)
next
  case True
  define U where "U i = (real i * s * (1 + 1 / 2 ^ 53) + a) * (1 + 1 / 2 ^ 53)" for i
  define L where "L i = (real i * s * (1 - 1 / 2 ^ 53) + a) * (1 - 1 / 2 ^ 53)" for i
  define y where "y i = fl (fl (real i * s) + a)" for i
  have yb: "L i \<le> y i" "y i \<le> U i" for i
    using affine_bounds [of "real i * s" a] a s by (simp_all add: L_def U_def y_def)
  have Umono: "i \<le> j \<Longrightarrow> U i \<le> U j" for i j
    unfolding U_def using s by (intro upper_mono mult_right_mono) simp_all
  have Lmono: "i \<le> j \<Longrightarrow> L i \<le> L j" for i j
    unfolding L_def using s by (intro lower_mono mult_right_mono) simp_all
  have gapi: "U i < L (Suc i)" if "i < n" for i
  proof -
    have "real i * s \<le> real n * s" using that s by (intro mult_right_mono) simp_all
    then have "real i * s \<le> D" using D by linarith
    from step_gap [OF _ this gap] have
      "(real i * s * (1 + 1 / 2 ^ 53) + a) * (1 + 1 / 2 ^ 53)
         < ((real i * s + s) * (1 - 1 / 2 ^ 53) + a) * (1 - 1 / 2 ^ 53)" by simp
    moreover have "real (Suc i) * s = real i * s + s" by (simp add: algebra_simps)
    ultimately show ?thesis by (simp only: U_def L_def)
  qed
  have nth: "linspace a b n ! i = (if i = n - 1 then b else y i)" if "i < n" for i
    using linspace_nth [OF True that] by (simp add: y_def sdef)
  show ?thesis
  proof (simp only: sorted_wrt_iff_nth_less length_linspace, intro allI impI)
    fix i j :: nat assume ij: "i < j" "j < n"
    then have i: "i < n" "i \<noteq> n - 1" by auto
    show "linspace a b n ! i < linspace a b n ! j"
    proof (cases "j = n - 1")
      case True
      have "i \<le> n - 2" using ij by simp
      then have "y i \<le> U (n - 2)" using yb(2) [of i] Umono [of i "n - 2"] by linarith
      also have "\<dots> < b" using top by (simp add: U_def)
      finally show ?thesis using nth [OF i(1)] nth [OF ij(2)] i(2) True by simp
    next
      case False
      have "y i \<le> U i" by (rule yb)
      also have "\<dots> < L (Suc i)" using gapi [OF i(1)] .
      also have "\<dots> \<le> L j" using ij by (intro Lmono) simp
      also have "\<dots> \<le> y j" by (rule yb)
      finally show ?thesis using nth [OF i(1)] nth [OF ij(2)] i(2) False by simp
    qed
  qed
qed

lemma fl_exact:
  assumes "0 < x" "2 ^ 52 \<le> x * 2 ^ n" "x * 2 ^ n < 2 ^ 53" "x * 2 ^ n = of_int m"
  shows "fl x = x"
proof -
  have "rne (x * 2 ^ n) = m" using assms(4) by (intro rne_near) simp
  from fl_eq [OF assms(1-3) this] have "fl x = of_int m / 2 ^ n" .
  also have "\<dots> = x" using assms(4) [symmetric] by simp
  finally show ?thesis .
qed

lemma fl_small:
  "fl 4 = 4" "fl 9 = 9" "fl 14 = 14" "fl 19 = 19"
proof -
  show "fl 4 = 4" by (rule fl_exact [of 4 50 "4 * 2 ^ 50"]) simp_all
  show "fl 9 = 9" by (rule fl_exact [of 9 49 "9 * 2 ^ 49"]) simp_all
  show "fl 14 = 14" by (rule fl_exact [of 14 49 "14 * 2 ^ 49"]) simp_all
  show "fl 19 = 19" by (rule fl_exact [of 19 48 "19 * 2 ^ 48"]) simp_all
qed

lemma fl_zero: "fl 0 = 0"
  by (simp add: fl_def)

lemma grid_E_sorted: "sorted_wrt (<) (linspace 9 23 281)"
proof -
  define s where "s = fl (fl (23 - 9) / real (281 - 1))"
  have s: "s = fl (1 / 20)" by (simp add: s_def fl_small)
  have lo: "1 / 20 * (1 - 1 / 2 ^ 53) \<le> s" and hi: "s \<le> 1 / 20 * (1 + 1 / 2 ^ 53)"
    unfolding s by (rule fl_bounds, simp)+
  show ?thesis
  proof (rule linspace_strict [where D = 15 and s = s])
    show "s = fl (fl (23 - 9) / real (281 - 1))" by (simp add: s_def)
    show "(0::real) \<le> 9" by simp
    show "0 \<le> s" using lo by simp
    show "real 281 * s \<le> 15" using hi by simp
    show "(4 * 15 + 2 * 9) * (1 / 2 ^ 53) < s * (1 - 1 / 2 ^ 53)\<^sup>2" using lo by (simp add: power2_eq_square)
    show "(real (281 - 2) * s * (1 + 1 / 2 ^ 53) + 9) * (1 + 1 / 2 ^ 53) < 23" using hi by simp
  qed
qed

lemma grid_skin_sorted: "sorted_wrt (<) (linspace 4 23 (380000 + 1))"
proof -
  define s where "s = fl (fl (23 - 4) / real (380000 + 1 - 1))"
  have s: "s = fl (19 / 380000)" by (simp add: s_def fl_small)
  have lo: "19 / 380000 * (1 - 1 / 2 ^ 53) \<le> s" and hi: "s \<le> 19 / 380000 * (1 + 1 / 2 ^ 53)"
    unfolding s by (rule fl_bounds, simp)+
  show ?thesis
  proof (rule linspace_strict [where D = 20 and s = s])
    show "s = fl (fl (23 - 4) / real (380000 + 1 - 1))" by (simp add: s_def)
    show "(0::real) \<le> 4" by simp
    show "0 \<le> s" using lo by simp
    show "real (380000 + 1) * s \<le> 20" using hi by simp
    show "(4 * 20 + 2 * 4) * (1 / 2 ^ 53) < s * (1 - 1 / 2 ^ 53)\<^sup>2" using lo by (simp add: power2_eq_square)
    show "(real (380000 + 1 - 2) * s * (1 + 1 / 2 ^ 53) + 4) * (1 + 1 / 2 ^ 53) < 23" using hi by simp
  qed
qed

lemma grid_skin_save_sorted: "sorted_wrt (<) (linspace 4 23 (190 + 1))"
proof -
  define s where "s = fl (fl (23 - 4) / real (190 + 1 - 1))"
  have s: "s = fl (1 / 10)" by (simp add: s_def fl_small)
  have lo: "1 / 10 * (1 - 1 / 2 ^ 53) \<le> s" and hi: "s \<le> 1 / 10 * (1 + 1 / 2 ^ 53)"
    unfolding s by (rule fl_bounds, simp)+
  show ?thesis
  proof (rule linspace_strict [where D = 20 and s = s])
    show "s = fl (fl (23 - 4) / real (190 + 1 - 1))" by (simp add: s_def)
    show "(0::real) \<le> 4" by simp
    show "0 \<le> s" using lo by simp
    show "real (190 + 1) * s \<le> 20" using hi by simp
    show "(4 * 20 + 2 * 4) * (1 / 2 ^ 53) < s * (1 - 1 / 2 ^ 53)\<^sup>2" using lo by (simp add: power2_eq_square)
    show "(real (190 + 1 - 2) * s * (1 + 1 / 2 ^ 53) + 4) * (1 + 1 / 2 ^ 53) < 23" using hi by simp
  qed
qed

lemma logspace_sorted:
  assumes "sorted_wrt (<) (linspace a b n)"
  shows "sorted_wrt (<) (logspace a b n)"
proof -
  have "sorted_wrt (\<lambda>x y. (10::real) powr x < 10 powr y) (linspace a b n)"
    using assms by (rule sorted_wrt_mono_rel [rotated]) simp
  then show ?thesis by (simp add: logspace_def sorted_wrt_map)
qed

lemma linspace_ends:
  assumes "1 < n" "fl a = a"
  shows "linspace a b n ! 0 = a" "linspace a b n ! (n - 1) = b"
  using assms by (simp_all add: linspace_nth fl_zero)

lemma linspace_range:
  assumes "sorted_wrt (<) (linspace a b n)" "1 < n" "fl a = a" "y \<in> set (linspace a b n)"
  shows "a \<le> y" "y \<le> b"
proof -
  obtain i where i: "i < n" "y = linspace a b n ! i"
    using assms(4) by (auto simp: in_set_conv_nth length_linspace)
  have srt: "sorted (linspace a b n)" using assms(1) by (simp add: strict_sorted_iff)
  have "linspace a b n ! 0 \<le> linspace a b n ! i"
    using srt i(1) by (intro sorted_nth_mono) (simp_all add: length_linspace)
  then show "a \<le> y" using linspace_ends(1) [OF assms(2,3)] i(2) by simp
  have "linspace a b n ! i \<le> linspace a b n ! (n - 1)"
    using srt i(1) assms(2) by (intro sorted_nth_mono) (simp_all add: length_linspace)
  then show "y \<le> b" using linspace_ends(2) [OF assms(2,3)] i(2) by simp
qed

lemma logspace_range:
  assumes "sorted_wrt (<) (linspace a b n)" "1 < n" "fl a = a" "x \<in> set (logspace a b n)"
  shows "10 powr a \<le> x" "x \<le> 10 powr b"
proof -
  obtain y where y: "y \<in> set (linspace a b n)" "x = 10 powr y"
    using assms(4) by (auto simp: logspace_def)
  show "10 powr a \<le> x" "x \<le> 10 powr b"
    using linspace_range [OF assms(1-3) y(1)] y(2) by simp_all
qed

lemma logspace_last_mem:
  assumes "1 < n"
  shows "10 powr b \<in> set (logspace a b n)"
proof -
  have "logspace a b n ! (n - 1) = 10 powr b"
    using assms by (simp add: logspace_nth linspace_nth)
  moreover have "logspace a b n ! (n - 1) \<in> set (logspace a b n)"
    using assms by (intro nth_mem) (simp add: length_logspace)
  ultimately show ?thesis by simp
qed









lemma scaled_strict:
  assumes "sorted_wrt (<) xs" "0 < (c::real)"
  shows "sorted_wrt (<) (filter P (map (\<lambda>x. x * c) xs))"
proof -
  have "sorted_wrt (\<lambda>x y. x * c < y * c) xs"
    using assms by (simp add: sorted_wrt_mono_rel [of xs "(<)"])
  then have "sorted_wrt (<) (map (\<lambda>x. x * c) xs)" by (simp add: sorted_wrt_map)
  then show ?thesis by (rule sorted_wrt_filter)
qed

lemma process_skin_strict: "sorted_wrt (<) (process_skin m)"
  unfolding process_skin_def using eV_pos
  by (intro scaled_strict logspace_sorted grid_skin_sorted) simp_all

lemma process_skin_save_strict: "sorted_wrt (<) (process_skin_save m)"
  unfolding process_skin_save_def using eV_pos
  by (intro scaled_strict logspace_sorted grid_skin_save_sorted) simp_all

lemma process_E_strict: "sorted_wrt (<) (process_E m)"
  unfolding process_E_def using eV_pos
  by (intro scaled_strict logspace_sorted grid_E_sorted) simp_all

subsection \<open>Interpolation is monotone and exact at sample points\<close>

lemma chord_mono:
  fixes x0 y0 x1 y1 :: real
  assumes "x0 < x1" "y0 \<le> y1" "x \<le> x'"
  shows "(y1 - y0) / (x1 - x0) * (x - x0) + y0 \<le> (y1 - y0) / (x1 - x0) * (x' - x0) + y0"
proof -
  have "0 \<le> (y1 - y0) / (x1 - x0)" using assms by simp
  then have "(y1 - y0) / (x1 - x0) * (x - x0) \<le> (y1 - y0) / (x1 - x0) * (x' - x0)"
    using assms(3) by (intro mult_left_mono) auto
  then show ?thesis by simp
qed

lemma chord_ends:
  fixes x0 y0 x1 y1 :: real
  assumes "x0 < x1"
  shows "(y1 - y0) / (x1 - x0) * (x0 - x0) + y0 = y0"
    and "(y1 - y0) / (x1 - x0) * (x1 - x0) + y0 = y1"
  using assms by simp_all

lemma chord_range:
  fixes x0 y0 x1 y1 :: real
  assumes "x0 < x1" "y0 \<le> y1" "x0 \<le> x" "x \<le> x1"
  shows "y0 \<le> (y1 - y0) / (x1 - x0) * (x - x0) + y0"
    and "(y1 - y0) / (x1 - x0) * (x - x0) + y0 \<le> y1"
  using chord_mono [OF assms(1,2,3)] chord_mono [OF assms(1,2,4)] chord_ends [OF assms(1), of y1 y0]
  by simp_all

lemma interp_pts_bounds:
  assumes "ps \<noteq> []" "sorted_wrt (<) (map fst ps)" "sorted (map snd ps)" "fst (hd ps) \<le> x"
  shows "snd (hd ps) \<le> interp_pts x ps \<and> interp_pts x ps \<le> snd (last ps)"
  using assms
proof (induction x ps rule: interp_pts.induct)
  case (1 x)
  then show ?case by simp
next
  case (2 x x0 y0)
  then show ?case by simp
next
  case (3 x x0 y0 x1 y1 ps)
  have lt: "x0 < x1" and le: "y0 \<le> y1" and x0: "x0 \<le> x" using "3.prems" by auto
  have y1last: "y1 \<le> snd (last ((x1, y1) # ps))"
  proof (cases "ps = []")
    case True
    then show ?thesis by simp
  next
    case False
    then have "last ps \<in> set ps" by simp
    then show ?thesis using "3.prems"(3) False by auto
  qed
  show ?case
  proof (cases "x < x1")
    case True
    then have "x \<le> x1" by simp
    from chord_range [OF lt le x0 this] True y1last le show ?thesis by auto
  next
    case False
    then have "fst (hd ((x1, y1) # ps)) \<le> x" by simp
    moreover have "sorted_wrt (<) (map fst ((x1, y1) # ps))" "sorted (map snd ((x1, y1) # ps))"
      using "3.prems" by auto
    ultimately have "snd (hd ((x1, y1) # ps)) \<le> interp_pts x ((x1, y1) # ps)
        \<and> interp_pts x ((x1, y1) # ps) \<le> snd (last ((x1, y1) # ps))"
      using "3.IH" [OF False] by blast
    then show ?thesis using False le by auto
  qed
qed

lemma interp_pts_mono:
  assumes "ps \<noteq> []" "sorted_wrt (<) (map fst ps)" "sorted (map snd ps)" "fst (hd ps) \<le> x" "x \<le> x'"
  shows "interp_pts x ps \<le> interp_pts x' ps"
  using assms
proof (induction x ps rule: interp_pts.induct)
  case (1 x)
  then show ?case by simp
next
  case (2 x x0 y0)
  then show ?case by simp
next
  case (3 x x0 y0 x1 y1 ps)
  have lt: "x0 < x1" and le: "y0 \<le> y1" and x0: "x0 \<le> x" and xx: "x \<le> x'"
    using "3.prems" by auto
  have tl: "sorted_wrt (<) (map fst ((x1, y1) # ps))" "sorted (map snd ((x1, y1) # ps))"
    using "3.prems" by auto
  show ?case
  proof (cases "x < x1")
    case False
    then have "fst (hd ((x1, y1) # ps)) \<le> x" by simp
    then have "interp_pts x ((x1, y1) # ps) \<le> interp_pts x' ((x1, y1) # ps)"
      using "3.IH" [OF False] tl xx by blast
    then show ?thesis using False xx by auto
  next
    case True
    show ?thesis
    proof (cases "x' < x1")
      case True
      have "interp_pts x ((x0, y0) # (x1, y1) # ps) = (y1 - y0) / (x1 - x0) * (x - x0) + y0"
        using \<open>x < x1\<close> by simp
      moreover have "interp_pts x' ((x0, y0) # (x1, y1) # ps) = (y1 - y0) / (x1 - x0) * (x' - x0) + y0"
        using True by simp
      ultimately show ?thesis using chord_mono [OF lt le xx] by simp
    next
      case False
      have "interp_pts x ((x0, y0) # (x1, y1) # ps) = (y1 - y0) / (x1 - x0) * (x - x0) + y0"
        using \<open>x < x1\<close> by simp
      moreover have "(y1 - y0) / (x1 - x0) * (x - x0) + y0 \<le> y1"
        using chord_range(2) [OF lt le x0] \<open>x < x1\<close> by simp
      moreover have "y1 \<le> interp_pts x' ((x1, y1) # ps)"
        using interp_pts_bounds [of "(x1, y1) # ps" x'] tl False by simp
      ultimately show ?thesis using False by simp
    qed
  qed
qed


lemma zip_facts:
  assumes "xp \<noteq> []" "length fp = length xp"
  shows "zip xp fp \<noteq> []" "map fst (zip xp fp) = xp" "map snd (zip xp fp) = fp"
    "hd (zip xp fp) = (hd xp, hd fp)" "last (zip xp fp) = (last xp, last fp)"
proof -
  have fp: "fp \<noteq> []" using assms by auto
  show "zip xp fp \<noteq> []" using assms fp by (cases xp; cases fp) auto
  show "map fst (zip xp fp) = xp" using assms by simp
  show "map snd (zip xp fp) = fp" using assms by simp
  show "hd (zip xp fp) = (hd xp, hd fp)" using assms fp by (cases xp; cases fp) auto
  show "last (zip xp fp) = (last xp, last fp)" using assms fp by (simp add: last_zip)
qed

lemma sorted_hd_last:
  fixes fp :: "real list"
  assumes "sorted fp" "fp \<noteq> []"
  shows "hd fp \<le> last fp"
  using assms by (cases fp) (auto simp: last_conv_nth dest: nth_mem)

lemma interp1_bounds:
  assumes "xp \<noteq> []" "length fp = length xp" "sorted_wrt (<) xp" "sorted fp"
  shows "hd fp \<le> interp1 x xp fp" "interp1 x xp fp \<le> last fp"
proof -
  have fp: "fp \<noteq> []" using assms by auto
  note z = zip_facts [OF assms(1,2)]
  have hl: "hd fp \<le> last fp" using sorted_hd_last [OF assms(4) fp] .
  have b: "hd xp \<le> x \<Longrightarrow> hd fp \<le> interp_pts x (zip xp fp) \<and> interp_pts x (zip xp fp) \<le> last fp"
    using interp_pts_bounds [of "zip xp fp" x] z assms(3,4) by simp
  show "hd fp \<le> interp1 x xp fp" using hl b by (auto simp: interp1_def)
  show "interp1 x xp fp \<le> last fp" using hl b by (auto simp: interp1_def)
qed

lemma interp1_mono:
  assumes "xp \<noteq> []" "length fp = length xp" "sorted_wrt (<) xp" "sorted fp" "x \<le> x'"
  shows "interp1 x xp fp \<le> interp1 x' xp fp"
proof (cases "x < hd xp")
  case True
  then show ?thesis using interp1_bounds(1) [OF assms(1-4), of x'] by (simp add: interp1_def)
next
  case False
  note lo = this
  show ?thesis
  proof (cases "last xp < x'")
    case True
    then have "interp1 x' xp fp = last fp" using lo assms(5) by (auto simp: interp1_def)
    then show ?thesis using interp1_bounds(2) [OF assms(1-4), of x] by simp
  next
    case False
    note z = zip_facts [OF assms(1,2)]
    have "interp_pts x (zip xp fp) \<le> interp_pts x' (zip xp fp)"
      using interp_pts_mono [of "zip xp fp" x x'] z assms(3,4,5) lo by simp
    then show ?thesis using lo False assms(5) by (auto simp: interp1_def)
  qed
qed


lemma interp_sorted:
  assumes "interp x xp fp = Inr ys" "sorted_wrt (<) xp" "sorted fp" "sorted x"
  shows "sorted ys"
proof -
  have ne: "xp \<noteq> []" and len: "length fp = length xp" and ys: "ys = map (\<lambda>v. interp1 v xp fp) x"
    using assms(1) by (auto simp: interp_def split: if_splits)
  have "sorted_wrt (\<lambda>a b. interp1 a xp fp \<le> interp1 b xp fp) x"
    using assms(4) interp1_mono [OF ne len assms(2,3)]
    by (rule sorted_wrt_mono_rel [rotated]) 
  then show ?thesis by (simp add: ys sorted_wrt_map)
qed

lemma interp_rows_nth:
  assumes "interp_rows x xp rate = Inr rate_save"
  shows "length rate_save = length rate
         \<and> (\<forall>i < length rate. interp x xp (rate ! i) = Inr (rate_save ! i))"
  using assms
proof (induction rate arbitrary: rate_save)
  case Nil
  then show ?case by simp
next
  case (Cons r rs)
  from Cons.prems obtain v vs where v: "interp x xp r = Inr v" "interp_rows x xp rs = Inr vs"
      "rate_save = v # vs"
    by (auto split: sum.splits)
  have "length vs = length rs \<and> (\<forall>i < length rs. interp x xp (rs ! i) = Inr (vs ! i))"
    using Cons.IH [OF v(2)] .
  then show ?case using v by (auto simp: nth_Cons split: nat.splits)
qed

subsection \<open>Downsampling\<close>

lemma process_skin_zero:
  "process_skin 0 = map (\<lambda>x. x * eV ^ 2) (logspace 4 23 (380000 + 1))"
  "process_skin_save 0 = map (\<lambda>x. x * eV ^ 2) (logspace 4 23 (190 + 1))"
  using eV_pos by (auto simp: process_skin_def process_skin_save_def filter_id_conv dest: logspace_pos)

lemma process_skin_zero_length:
  "length (process_skin 0) = 380000 + 1" "length (process_skin_save 0) = 190 + 1"
  by (simp_all only: process_skin_zero length_map length_logspace)

lemma process_skin_zero_ne: "process_skin 0 \<noteq> []" "process_skin_save 0 \<noteq> []"
  using process_skin_zero_length by auto

lemma interp_grid_row:
  "interp (process_skin_save 0) (process_skin 0) (process_skin 0)
   = Inr (map (\<lambda>v. interp1 v (process_skin 0) (process_skin 0)) (process_skin_save 0))"
  using process_skin_zero_ne by (simp add: interp_def)

text \<open>
  C6. A row of the cumulative table that is non-decreasing over the fine grid \<open>skin\<close> is
  non-decreasing over the coarse grid \<open>skin_save\<close> after \<open>np.interp\<close>.
\<close>

theorem downsampling_monotone:
  assumes "interp_rows (process_skin_save m) (process_skin m) rate = Inr rate_save"
    and "i < length rate" and "sorted (rate ! i)"
  shows "i < length rate_save \<and> sorted (rate_save ! i)"
proof -
  have n: "length rate_save = length rate"
    and r: "interp (process_skin_save m) (process_skin m) (rate ! i) = Inr (rate_save ! i)"
    using interp_rows_nth [OF assms(1)] assms(2) by auto
  have "sorted (process_skin_save m)"
    using process_skin_save_strict by (simp add: strict_sorted_iff)
  then have "sorted (rate_save ! i)"
    using interp_sorted [OF r process_skin_strict assms(3)] by simp
  then show ?thesis using n assms(2) by simp
qed

theorem downsampling_monotone_witness:
  "interp_rows (process_skin_save 0) (process_skin 0) [process_skin 0]
     = Inr [map (\<lambda>v. interp1 v (process_skin 0) (process_skin 0)) (process_skin_save 0)]
   \<and> 0 < length [process_skin 0]
   \<and> sorted ([process_skin 0] ! 0)
   \<and> sorted ([map (\<lambda>v. interp1 v (process_skin 0) (process_skin 0)) (process_skin_save 0)] ! 0)"
proof -
  have a: "interp_rows (process_skin_save 0) (process_skin 0) [process_skin 0]
     = Inr [map (\<lambda>v. interp1 v (process_skin 0) (process_skin 0)) (process_skin_save 0)]"
    by (simp add: interp_grid_row)
  have b: "0 < length [process_skin 0]" by simp
  have c: "sorted ([process_skin 0] ! 0)"
    using process_skin_strict [of 0] by (simp add: strict_sorted_iff)
  show ?thesis using a b c downsampling_monotone [OF a b c] by blast
qed









subsection \<open>Runs of the pipeline\<close>

lemma getTabulatedXS_total: "\<exists>xs. getTabulatedXS sigma skin = Inr xs"
  by (simp add: getTabulatedXS_def)

lemma process_density_total: "\<exists>w'. process_density ext field w = Inr w'"
  using calculateDensityIntegral_total by (simp add: process_density_def)

lemma getEmin_Inr:
  assumes "getEmin sigma field = Inr Emin"
  shows "\<exists>smin. getSmin sigma = Inr smin \<and> field_getEmax field \<noteq> 0
           \<and> Emin = smin / (4 * field_getEmax field)"
  using assms by (auto simp: getEmin_def split: sum.splits if_splits)

lemma files_differ: "rate_file pname field \<noteq> cdf_file pname field"
  by (simp add: rate_file_def cdf_file_def)

text \<open>The shape of a run of \<open>process\<close> once the minimum energy is known.\<close>

lemma process_steps:
  assumes "getEmin sigma field = Inr Emin"
  shows "\<exists>w2 xs. getTabulatedXS sigma process_s_kin = Inr xs \<and>
     process ext sigma field pname w =
       (case calc_rate_s ext process_s_kin xs (process_E Emin) field of
          Inl e \<Rightarrow> Inl e
        | Inr rate \<Rightarrow>
            if length rate \<noteq> length (process_E Emin) then Inl ValueError
            else process_cdf ext sigma field pname (process_E Emin)
                   (savetxt w2 (rate_file pname field)
                      (map2 (\<lambda>e r. [log 10 (e / eV), r]) (process_E Emin) rate)
                      (rate_header ext pname field)))"
proof -
  define w1 where "w1 = (if \<not> path_exists w (''data/'' @ pname) then makedirs w (''data/'' @ pname) else w)"
  obtain w2 where w2: "process_density ext field w1 = Inr w2"
    using process_density_total by blast
  obtain xs where xs: "getTabulatedXS sigma process_s_kin = Inr xs"
    using getTabulatedXS_total by blast
  have "process ext sigma field pname w =
       (case calc_rate_s ext process_s_kin xs (process_E Emin) field of
          Inl e \<Rightarrow> Inl e
        | Inr rate \<Rightarrow>
            if length rate \<noteq> length (process_E Emin) then Inl ValueError
            else process_cdf ext sigma field pname (process_E Emin)
                   (savetxt w2 (rate_file pname field)
                      (map2 (\<lambda>e r. [log 10 (e / eV), r]) (process_E Emin) rate)
                      (rate_header ext pname field)))"
    unfolding process_def Let_def w1_def [symmetric]
    by (simp only: assms w2 xs sum.case)
  then show ?thesis using xs by blast
qed

lemma process_cdf_empty_E:
  "process_cdf ext sigma field pname [] w = Inl IndexError \<or> process_cdf ext sigma field pname [] w = Inl KeyError"
  by (auto simp: process_cdf_def getSmin_def split: sum.splits option.splits)

lemma process_cdf_Inr:
  assumes "process_cdf ext sigma field pname E w = Inr w'"
  shows "\<exists>rate_save row0. length rate_save = length E \<and>
           w' = savetxt w (cdf_file pname field)
                  (row0 # map2 (\<lambda>e r. log 10 (e / eV) # r) E rate_save)
                  (cdf_header ext pname field)"
  using assms unfolding process_cdf_def Let_def
  by (auto split: sum.splits list.splits if_splits)

lemma process_cdf_empty_skin:
  assumes "getSmin sigma = Inr skin1" "E = E0 # Es"
    and "process_skin (max skin1 (4 * field_getEmin field * E0)) = []"
    and "getTabulatedXS sigma [] = Inr xs"
    and "calc_rate_s_cdf ext [] xs E field = Inr rate" "length rate = length E"
  shows "process_cdf ext sigma field pname E w = Inl ValueError"
proof -
  obtain r rs where r: "rate = r # rs" using assms(2,6) by (cases rate) auto
  have "interp x [] r = Inl ValueError" for x by (simp add: interp_def)
  then have "interp_rows x [] rate = Inl ValueError" for x by (simp add: r)
  then show ?thesis
    unfolding process_cdf_def Let_def using assms by simp
qed

lemma interp_rows_error: "interp_rows x xp rate = Inl e \<Longrightarrow> e = ValueError"
proof (induction rate)
  case Nil
  then show ?case by simp
next
  case (Cons r rs)
  then show ?case by (auto simp: interp_def split: sum.splits if_splits)
qed

lemma process_cdf_error:
  assumes "process_cdf ext sigma field pname E w = Inl e"
  shows "e \<in> {KeyError, IndexError, ValueError}
         \<or> (\<exists>skin xs. calc_rate_s_cdf ext skin xs E field = Inl e)"
  using assms unfolding process_cdf_def Let_def
  by (auto simp: getSmin_def getTabulatedXS_def
           split: sum.splits list.splits if_splits option.splits dest: interp_rows_error)

lemma process_error:
  assumes "process ext sigma field pname w = Inl e"
  shows "e \<in> {KeyError, ZeroDivisionError, IndexError, ValueError}
         \<or> (\<exists>skin xs E. calc_rate_s ext skin xs E field = Inl e)
         \<or> (\<exists>skin xs E. calc_rate_s_cdf ext skin xs E field = Inl e)"
proof (cases "getEmin sigma field")
  case (Inl e')
  then have "process ext sigma field pname w = Inl e'" by (simp add: process_def Let_def)
  moreover have "e' \<in> {KeyError, ZeroDivisionError}"
    using Inl by (auto simp: getEmin_def getSmin_def split: sum.splits option.splits if_splits)
  ultimately show ?thesis using assms by auto
next
  case (Inr Emin)
  from process_steps [OF Inr, of ext pname w] obtain w2 xs where
    p: "process ext sigma field pname w =
       (case calc_rate_s ext process_s_kin xs (process_E Emin) field of
          Inl e \<Rightarrow> Inl e
        | Inr rate \<Rightarrow>
            if length rate \<noteq> length (process_E Emin) then Inl ValueError
            else process_cdf ext sigma field pname (process_E Emin)
                   (savetxt w2 (rate_file pname field)
                      (map2 (\<lambda>e r. [log 10 (e / eV), r]) (process_E Emin) rate)
                      (rate_header ext pname field)))"
    by blast
  show ?thesis
  proof (cases "calc_rate_s ext process_s_kin xs (process_E Emin) field")
    case (Inl e')
    then show ?thesis using p assms by auto
  next
    case (Inr rate)
    show ?thesis
    proof (cases "length rate \<noteq> length (process_E Emin)")
      case True
      then show ?thesis using p assms Inr by auto
    next
      case False
      then have "process_cdf ext sigma field pname (process_E Emin)
                   (savetxt w2 (rate_file pname field)
                      (map2 (\<lambda>e r. [log 10 (e / eV), r]) (process_E Emin) rate)
                      (rate_header ext pname field)) = Inl e"
        using p assms Inr by simp
      from process_cdf_error [OF this] show ?thesis by blast
    qed
  qed
qed

lemma process_empty_E:
  assumes "getEmin sigma field = Inr Emin" "process_E Emin = []"
    and "getTabulatedXS sigma process_s_kin = Inr xs"
    and "calc_rate_s ext process_s_kin xs [] field = Inr []"
  shows "process ext sigma field pname w = Inl IndexError"
proof -
  obtain smin where smin: "getSmin sigma = Inr smin" using getEmin_Inr [OF assms(1)] by blast
  have c: "process_cdf ext sigma field pname [] w' = Inl IndexError" for w'
    by (simp add: process_cdf_def smin)
  from process_steps [OF assms(1), of ext pname w] show ?thesis
    using assms(2,3,4) c by auto
qed

lemma process_empty_skin:
  assumes "getEmin sigma field = Inr Emin" "process_E Emin \<noteq> []"
    and "getSmin sigma = Inr skin1"
    and "process_skin (max skin1 (4 * field_getEmin field * hd (process_E Emin))) = []"
    and "getTabulatedXS sigma process_s_kin = Inr xs"
    and "calc_rate_s ext process_s_kin xs (process_E Emin) field = Inr rate"
    and "length rate = length (process_E Emin)"
    and "getTabulatedXS sigma [] = Inr xs2"
    and "calc_rate_s_cdf ext [] xs2 (process_E Emin) field = Inr rate2"
    and "length rate2 = length (process_E Emin)"
  shows "process ext sigma field pname w = Inl ValueError"
proof -
  obtain E0 Es where E: "process_E Emin = E0 # Es" using assms(2) by (cases "process_E Emin") auto
  have "process_skin (max skin1 (4 * field_getEmin field * E0)) = []"
    using assms(4) E by simp
  then have c: "process_cdf ext sigma field pname (process_E Emin) w' = Inl ValueError" for w'
    using process_cdf_empty_skin [OF assms(3) E _ assms(8,9,10)] by simp
  from process_steps [OF assms(1), of ext pname w] show ?thesis
    using assms(5,6,7) c by auto
qed

text \<open>
  C9, amended. When no particle energy remains and the rate engine returns the empty
  rate table, \<open>process\<close> fails with IndexError (at \<open>E[0]\<close>); when energies remain, no
  \<open>s_kin\<close> value remains and the rate engine returns one rate and one row for each energy,
  it fails with ValueError (\<open>np.interp\<close> on no sample points). \<open>process\<close> ends with
  \<open>EmptyDomain\<close> only if the rate engine itself raised it.
\<close>

theorem empty_domain_errors:
  "(getEmin sigma field = Inr Emin \<and> process_E Emin = []
      \<and> getTabulatedXS sigma process_s_kin = Inr xs
      \<and> calc_rate_s ext process_s_kin xs [] field = Inr []
    \<longrightarrow> process ext sigma field pname w = Inl IndexError)
   \<and> (getEmin sigma field = Inr Emin \<and> process_E Emin \<noteq> []
      \<and> getSmin sigma = Inr skin1
      \<and> process_skin (max skin1 (4 * field_getEmin field * hd (process_E Emin))) = []
      \<and> getTabulatedXS sigma process_s_kin = Inr xs
      \<and> calc_rate_s ext process_s_kin xs (process_E Emin) field = Inr rate
      \<and> length rate = length (process_E Emin)
      \<and> getTabulatedXS sigma [] = Inr xs2
      \<and> calc_rate_s_cdf ext [] xs2 (process_E Emin) field = Inr rate2
      \<and> length rate2 = length (process_E Emin)
    \<longrightarrow> process ext sigma field pname w = Inl ValueError)
   \<and> (process ext sigma field pname w = Inl EmptyDomain
    \<longrightarrow> (\<exists>skin ys E. calc_rate_s ext skin ys E field = Inl EmptyDomain)
        \<or> (\<exists>skin ys E. calc_rate_s_cdf ext skin ys E field = Inl EmptyDomain))"
proof (intro conjI impI)
  assume "getEmin sigma field = Inr Emin \<and> process_E Emin = []
      \<and> getTabulatedXS sigma process_s_kin = Inr xs
      \<and> calc_rate_s ext process_s_kin xs [] field = Inr []"
  then show "process ext sigma field pname w = Inl IndexError"
    using process_empty_E by blast
next
  assume "getEmin sigma field = Inr Emin \<and> process_E Emin \<noteq> []
      \<and> getSmin sigma = Inr skin1
      \<and> process_skin (max skin1 (4 * field_getEmin field * hd (process_E Emin))) = []
      \<and> getTabulatedXS sigma process_s_kin = Inr xs
      \<and> calc_rate_s ext process_s_kin xs (process_E Emin) field = Inr rate
      \<and> length rate = length (process_E Emin)
      \<and> getTabulatedXS sigma [] = Inr xs2
      \<and> calc_rate_s_cdf ext [] xs2 (process_E Emin) field = Inr rate2
      \<and> length rate2 = length (process_E Emin)"
  then show "process ext sigma field pname w = Inl ValueError"
    using process_empty_skin by blast
next
  assume "process ext sigma field pname w = Inl EmptyDomain"
  from process_error [OF this]
  show "(\<exists>skin ys E. calc_rate_s ext skin ys E field = Inl EmptyDomain)
        \<or> (\<exists>skin ys E. calc_rate_s_cdf ext skin ys E field = Inl EmptyDomain)"
    by auto
qed

text \<open>
  C5. A run of \<open>process\<close> that completes has tabulated exactly the energies of the base
  grid (\<open>logspace 9 23 281\<close>, in eV) above \<open>E_min = getSmin(sigma) / (4 * getEmax())\<close>:
  the rows of the rate file and of the cumulative file are those energies, in order.
\<close>

theorem process_energy_grid:
  assumes "process ext sigma field pname w = Inr w'"
  shows "\<exists>smin Emin E rate row0 rate_save.
           getSmin sigma = Inr smin \<and> field_getEmax field \<noteq> 0
         \<and> Emin = smin / (4 * field_getEmax field)
         \<and> getEmin sigma field = Inr Emin
         \<and> E = filter (\<lambda>e. Emin < e) (map (\<lambda>x. x * eV) (logspace 9 23 281))
         \<and> length rate = length E \<and> length rate_save = length E
         \<and> files w' (rate_file pname field)
             = Some (Table (rate_header ext pname field)
                       (map2 (\<lambda>e r. [log 10 (e / eV), r]) E rate))
         \<and> files w' (cdf_file pname field)
             = Some (Table (cdf_header ext pname field)
                       (row0 # map2 (\<lambda>e r. log 10 (e / eV) # r) E rate_save))"
proof -
  obtain Emin where Emin: "getEmin sigma field = Inr Emin"
    using assms by (cases "getEmin sigma field") (auto simp: process_def Let_def)
  from getEmin_Inr [OF Emin] obtain smin where smin: "getSmin sigma = Inr smin"
    "field_getEmax field \<noteq> 0" "Emin = smin / (4 * field_getEmax field)" by blast
  define E where "E = process_E Emin"
  from process_steps [OF Emin, of ext pname w] obtain w2 xs where
    p: "process ext sigma field pname w =
       (case calc_rate_s ext process_s_kin xs E field of
          Inl e \<Rightarrow> Inl e
        | Inr rate \<Rightarrow>
            if length rate \<noteq> length E then Inl ValueError
            else process_cdf ext sigma field pname E
                   (savetxt w2 (rate_file pname field)
                      (map2 (\<lambda>e r. [log 10 (e / eV), r]) E rate)
                      (rate_header ext pname field)))"
    unfolding E_def by blast
  obtain rate where rate: "calc_rate_s ext process_s_kin xs E field = Inr rate"
    using p assms by (cases "calc_rate_s ext process_s_kin xs E field") auto
  have len: "length rate = length E"
    using p assms rate by (auto split: if_splits)
  define w3 where "w3 = savetxt w2 (rate_file pname field)
                      (map2 (\<lambda>e r. [log 10 (e / eV), r]) E rate) (rate_header ext pname field)"
  have "process_cdf ext sigma field pname E w3 = Inr w'"
    using p assms rate len by (simp add: w3_def)
  from process_cdf_Inr [OF this] obtain rate_save row0 where
    rs: "length rate_save = length E"
    "w' = savetxt w3 (cdf_file pname field)
                  (row0 # map2 (\<lambda>e r. log 10 (e / eV) # r) E rate_save)
                  (cdf_header ext pname field)" by blast
  have f1: "files w' (cdf_file pname field)
             = Some (Table (cdf_header ext pname field)
                       (row0 # map2 (\<lambda>e r. log 10 (e / eV) # r) E rate_save))"
    by (simp add: rs(2) savetxt_def)
  have f2: "files w' (rate_file pname field)
             = Some (Table (rate_header ext pname field)
                       (map2 (\<lambda>e r. [log 10 (e / eV), r]) E rate))"
    using files_differ [of pname field] by (simp add: rs(2) w3_def savetxt_def)
  have "E = filter (\<lambda>e. Emin < e) (map (\<lambda>x. x * eV) (logspace 9 23 281))"
    by (simp add: E_def process_E_def)
  then show ?thesis using smin Emin len rs(1) f1 f2 by blast
qed

lemma process_E_bounds:
  assumes "e \<in> set (process_E m)"
  shows "10 ^ 9 * eV \<le> e" "e \<le> 10 ^ 23 * eV" "m < e"
proof -
  obtain y where y: "y \<in> set (logspace 9 23 281)" "e = y * eV" "m < e"
    using assms by (auto simp: process_E_def)
  have "10 powr 9 \<le> y" "y \<le> 10 powr 23"
    using logspace_range [OF grid_E_sorted _ fl_small(2) y(1)] by simp_all
  then show "10 ^ 9 * eV \<le> e" "e \<le> 10 ^ 23 * eV" using y(2) eV_pos by simp_all
  show "m < e" by (rule y(3))
qed

lemma process_E_empty: "10 ^ 23 * eV \<le> m \<Longrightarrow> process_E m = []"
proof (rule ccontr)
  assume m: "10 ^ 23 * eV \<le> m" and "process_E m \<noteq> []"
  then obtain e where "e \<in> set (process_E m)" by (cases "process_E m") auto
  from process_E_bounds(2,3) [OF this] m show False by linarith
qed

lemma process_E_nonempty: "m < 10 ^ 23 * eV \<Longrightarrow> process_E m \<noteq> []"
proof -
  assume m: "m < 10 ^ 23 * eV"
  have "10 powr 23 \<in> set (logspace 9 23 281)" by (rule logspace_last_mem) simp
  then have "10 ^ 23 * eV \<in> set (map (\<lambda>x. x * eV) (logspace 9 23 281))" by force
  then have "10 ^ 23 * eV \<in> set (process_E m)" using m by (simp add: process_E_def)
  then show ?thesis by auto
qed

lemma process_skin_empty: "10 ^ 23 * eV ^ 2 \<le> m \<Longrightarrow> process_skin m = []"
proof (rule ccontr)
  assume m: "10 ^ 23 * eV ^ 2 \<le> m" and "process_skin m \<noteq> []"
  then obtain x where "x \<in> set (process_skin m)" by (cases "process_skin m") auto
  then obtain y where y: "y \<in> set (logspace 4 23 (380000 + 1))" "x = y * eV ^ 2" "m < x"
    by (auto simp: process_skin_def)
  have "y \<le> 10 powr 23"
    using logspace_range(2) [OF grid_skin_sorted _ fl_small(1) y(1)] by simp
  then have "x \<le> 10 ^ 23 * eV ^ 2" using y(2) eV_pos by simp
  then show False using m y(3) by linarith
qed

lemma process_skin_nonempty: "m < 10 ^ 23 * eV ^ 2 \<Longrightarrow> process_skin m \<noteq> []"
proof -
  assume m: "m < 10 ^ 23 * eV ^ 2"
  have "10 powr 23 \<in> set (logspace 4 23 (380000 + 1))" by (rule logspace_last_mem) simp
  then have "10 ^ 23 * eV ^ 2 \<in> set (map (\<lambda>x. x * eV ^ 2) (logspace 4 23 (380000 + 1)))" by force
  then have "10 ^ 23 * eV ^ 2 \<in> set (process_skin m)" using m by (simp add: process_skin_def)
  then show ?thesis by auto
qed

lemma interp_rows_ok:
  assumes "xp \<noteq> []" "\<forall>r \<in> set rate. length r = length xp"
  shows "\<exists>rs. interp_rows x xp rate = Inr rs \<and> length rs = length rate"
  using assms(2)
proof (induction rate)
  case Nil
  then show ?case by simp
next
  case (Cons r rate)
  then obtain rs where "interp_rows x xp rate = Inr rs" "length rs = length rate" by auto
  moreover have "interp x xp r = Inr (map (\<lambda>v. interp1 v xp r) x)"
    using Cons.prems assms(1) by (simp add: interp_def)
  ultimately show ?case by simp
qed

lemma process_cdf_ok:
  assumes "getSmin sigma = Inr skin1" "E \<noteq> []"
    and "process_skin (max skin1 (4 * field_getEmin field * hd E)) \<noteq> []"
    and "\<And>skin xs. \<exists>rate. calc_rate_s_cdf ext skin xs E field = Inr rate
            \<and> length rate = length E \<and> (\<forall>r \<in> set rate. length r = length skin)"
  shows "\<exists>w'. process_cdf ext sigma field pname E w = Inr w'"
proof -
  obtain E0 Es where E: "E = E0 # Es" using assms(2) by (cases E) auto
  define skin where "skin = process_skin (max skin1 (4 * field_getEmin field * E0))"
  have ne: "skin \<noteq> []" using assms(3) E by (simp add: skin_def)
  obtain xs where xs: "getTabulatedXS sigma skin = Inr xs" using getTabulatedXS_total by blast
  obtain rate where rate: "calc_rate_s_cdf ext skin xs E field = Inr rate"
      "length rate = length E" "\<forall>r \<in> set rate. length r = length skin"
    using assms(4) by blast
  obtain rs where rs: "interp_rows (process_skin_save (max skin1 (4 * field_getEmin field * E0))) skin rate = Inr rs"
      "length rs = length rate"
    using interp_rows_ok [OF ne rate(3)] by blast
  have "length rs = length (E0 # Es)" using rs(2) rate(2) E by simp
  then show ?thesis
    unfolding process_cdf_def Let_def E
    using assms(1) xs [unfolded skin_def] rate(1) [unfolded skin_def E] rs(1) [unfolded skin_def]
    by simp
qed

lemma process_ok:
  assumes "getEmin sigma field = Inr Emin" "process_E Emin \<noteq> []"
    and "getSmin sigma = Inr skin1"
    and "process_skin (max skin1 (4 * field_getEmin field * hd (process_E Emin))) \<noteq> []"
    and "\<And>skin xs E. \<exists>rate. calc_rate_s ext skin xs E field = Inr rate \<and> length rate = length E"
    and "\<And>skin xs E. \<exists>rate. calc_rate_s_cdf ext skin xs E field = Inr rate
            \<and> length rate = length E \<and> (\<forall>r \<in> set rate. length r = length skin)"
  shows "\<exists>w'. process ext sigma field pname w = Inr w'"
proof -
  from process_steps [OF assms(1), of ext pname w] obtain w2 xs where
    p: "process ext sigma field pname w =
       (case calc_rate_s ext process_s_kin xs (process_E Emin) field of
          Inl e \<Rightarrow> Inl e
        | Inr rate \<Rightarrow>
            if length rate \<noteq> length (process_E Emin) then Inl ValueError
            else process_cdf ext sigma field pname (process_E Emin)
                   (savetxt w2 (rate_file pname field)
                      (map2 (\<lambda>e r. [log 10 (e / eV), r]) (process_E Emin) rate)
                      (rate_header ext pname field)))"
    by blast
  obtain rate where rate: "calc_rate_s ext process_s_kin xs (process_E Emin) field = Inr rate"
      "length rate = length (process_E Emin)"
    using assms(5) by blast
  obtain w' where "process_cdf ext sigma field pname (process_E Emin)
                   (savetxt w2 (rate_file pname field)
                      (map2 (\<lambda>e r. [log 10 (e / eV), r]) (process_E Emin) rate)
                      (rate_header ext pname field)) = Inr w'"
    using process_cdf_ok [OF assms(3,2,4,6)] by blast
  then show ?thesis using p rate by simp
qed

lemma example_externals_rates:
  "\<exists>rate. calc_rate_s example_externals skin xs E field = Inr rate \<and> length rate = length E"
  "\<exists>rate. calc_rate_s_cdf example_externals skin xs E field = Inr rate
            \<and> length rate = length E \<and> (\<forall>r \<in> set rate. length r = length skin)"
  by (auto simp: example_externals_def)

lemma getSmin_catalogue:
  "getSmin SigmaPP = Inr (4 * me2)"
  "getSmin SigmaICS = Inr (1 / 10 ^ 40 * me2)"
  by (simp_all add: getSmin_def smin_table_def)

lemma getEmin_soft: "getEmin SigmaPP soft_field = Inr (10 ^ 24 * eV)"
proof -
  have nz: "me2 \<noteq> 0" "eV \<noteq> 0" using me2_pos eV_pos by auto
  have "4 * me2 / 4 / (me2 / (10 ^ 24 * eV)) = 10 ^ 24 * eV" using nz by simp
  then show ?thesis
    using nz by (simp add: getEmin_def getSmin_catalogue soft_field_def example_field_def)
qed

lemma Emin_ICS_small: "1 / 10 ^ 40 * me2 / 4 / (1 / 10 ^ 2 * eV) < 10 ^ 9 * eV"
proof -
  have "1 / 10 ^ 40 * me2 / 4 / (1 / 10 ^ 2 * eV) = (510998918 / 10 ^ 3) ^ 2 / (4 * 10 ^ 38) * eV"
    using eV_pos by (simp add: me2_def power2_eq_square)
  also have "\<dots> < 10 ^ 9 * eV"
    using eV_pos by (intro mult_strict_right_mono) (simp_all add: power2_eq_square)
  finally show ?thesis .
qed

lemma getEmin_ICS:
  "getEmin SigmaICS example_field = Inr (1 / 10 ^ 40 * me2 / 4 / (1 / 10 ^ 2 * eV))"
  "getEmin SigmaICS hard_field = Inr (1 / 10 ^ 40 * me2 / 4 / (1 / 10 ^ 2 * eV))"
  using eV_pos by (simp_all add: getEmin_def getSmin_catalogue hard_field_def example_field_def)

lemma E_ICS_nonempty: "process_E (1 / 10 ^ 40 * me2 / 4 / (1 / 10 ^ 2 * eV)) \<noteq> []"
proof (rule process_E_nonempty)
  have "10 ^ 9 * eV < 10 ^ 23 * eV" using eV_pos by simp
  then show "1 / 10 ^ 40 * me2 / 4 / (1 / 10 ^ 2 * eV) < 10 ^ 23 * eV"
    using Emin_ICS_small by linarith
qed

lemma hd_E_bounds:
  assumes "process_E m \<noteq> []"
  shows "10 ^ 9 * eV \<le> hd (process_E m)" "hd (process_E m) \<le> 10 ^ 23 * eV"
  using process_E_bounds [of "hd (process_E m)" m] assms by simp_all

lemma smin_ICS_small: "1 / 10 ^ 40 * me2 < 10 ^ 23 * eV ^ 2"
proof -
  have "1 / 10 ^ 40 * me2 = (510998918 / 10 ^ 3) ^ 2 / 10 ^ 40 * eV ^ 2"
    by (simp add: me2_def power2_eq_square)
  also have "\<dots> < 10 ^ 23 * eV ^ 2"
    using eV_pos by (intro mult_strict_right_mono) (simp_all add: power2_eq_square)
  finally show ?thesis .
qed

lemma skin_example_nonempty:
  "process_skin (max (1 / 10 ^ 40 * me2)
     (4 * field_getEmin example_field
        * hd (process_E (1 / 10 ^ 40 * me2 / 4 / (1 / 10 ^ 2 * eV))))) \<noteq> []"
proof (rule process_skin_nonempty)
  define e where "e = hd (process_E (1 / 10 ^ 40 * me2 / 4 / (1 / 10 ^ 2 * eV)))"
  have e: "e \<le> 10 ^ 23 * eV" using hd_E_bounds(2) [OF E_ICS_nonempty] by (simp add: e_def)
  have "4 * (1 / 10 ^ 10 * eV) * e \<le> 4 * (1 / 10 ^ 10 * eV) * (10 ^ 23 * eV)"
    using e eV_pos by (intro mult_left_mono) simp_all
  also have "\<dots> = 4 * 10 ^ 13 * eV ^ 2" by (simp add: power2_eq_square)
  also have "\<dots> < 10 ^ 23 * eV ^ 2" using eV_pos by (intro mult_strict_right_mono) simp_all
  finally have "4 * field_getEmin example_field * e < 10 ^ 23 * eV ^ 2"
    by (simp add: example_field_def)
  then show "max (1 / 10 ^ 40 * me2)
     (4 * field_getEmin example_field
        * hd (process_E (1 / 10 ^ 40 * me2 / 4 / (1 / 10 ^ 2 * eV)))) < 10 ^ 23 * eV ^ 2"
    using smin_ICS_small by (simp add: e_def)
qed

lemma skin_hard_empty:
  "process_skin (max (1 / 10 ^ 40 * me2)
     (4 * field_getEmin hard_field
        * hd (process_E (1 / 10 ^ 40 * me2 / 4 / (1 / 10 ^ 2 * eV))))) = []"
proof (rule process_skin_empty)
  define e where "e = hd (process_E (1 / 10 ^ 40 * me2 / 4 / (1 / 10 ^ 2 * eV)))"
  have e: "10 ^ 9 * eV \<le> e" using hd_E_bounds(1) [OF E_ICS_nonempty] by (simp add: e_def)
  have "10 ^ 23 * eV ^ 2 \<le> 4 * (10 ^ 23 * eV) * (10 ^ 9 * eV)"
    using eV_pos by (simp add: power2_eq_square)
  also have "\<dots> \<le> 4 * (10 ^ 23 * eV) * e"
    using e eV_pos by (intro mult_left_mono) simp_all
  finally have "10 ^ 23 * eV ^ 2 \<le> 4 * field_getEmin hard_field * e"
    by (simp add: hard_field_def example_field_def)
  then show "10 ^ 23 * eV ^ 2 \<le> max (1 / 10 ^ 40 * me2)
     (4 * field_getEmin hard_field
        * hd (process_E (1 / 10 ^ 40 * me2 / 4 / (1 / 10 ^ 2 * eV))))"
    by (simp add: e_def)
qed

lemma example_run:
  "\<exists>w'. process example_externals SigmaICS example_field ''EMInverseComptonScattering'' empty_world
          = Inr w'"
  by (rule process_ok [OF getEmin_ICS(1) E_ICS_nonempty getSmin_catalogue(2) skin_example_nonempty
        example_externals_rates])

lemma soft_run:
  "process example_externals SigmaPP soft_field ''EMPairProduction'' empty_world = Inl IndexError"
proof -
  have E: "process_E (10 ^ 24 * eV) = []"
    using eV_pos by (intro process_E_empty) simp
  obtain xs where xs: "getTabulatedXS SigmaPP process_s_kin = Inr xs"
    using getTabulatedXS_total by blast
  have "calc_rate_s example_externals process_s_kin xs [] soft_field = Inr []"
    by (simp add: example_externals_def)
  from process_empty_E [OF getEmin_soft E xs this] show ?thesis .
qed

lemma hard_run:
  "process example_externals SigmaICS hard_field ''EMInverseComptonScattering'' empty_world
   = Inl ValueError"
proof -
  define E where "E = process_E (1 / 10 ^ 40 * me2 / 4 / (1 / 10 ^ 2 * eV))"
  obtain xs where xs: "getTabulatedXS SigmaICS process_s_kin = Inr xs"
    using getTabulatedXS_total by blast
  obtain xs2 where xs2: "getTabulatedXS SigmaICS [] = Inr xs2"
    using getTabulatedXS_total by blast
  have r1: "calc_rate_s example_externals process_s_kin xs E hard_field = Inr (map (\<lambda>e. 0) E)"
    by (simp add: example_externals_def)
  have r2: "calc_rate_s_cdf example_externals [] xs2 E hard_field = Inr (map (\<lambda>e. []) E)"
    by (simp add: example_externals_def)
  show ?thesis
    using process_empty_skin [OF getEmin_ICS(2) E_ICS_nonempty getSmin_catalogue(2) skin_hard_empty
        xs r1 [unfolded E_def] _ xs2 r2 [unfolded E_def]]
    by simp
qed

lemma raising_run:
  "process raising_externals SigmaICS example_field ''EMInverseComptonScattering'' empty_world
   = Inl EmptyDomain"
proof -
  from process_steps [OF getEmin_ICS(1), of raising_externals "''EMInverseComptonScattering''" empty_world]
  show ?thesis by (auto simp: raising_externals_def)
qed

theorem empty_domain_errors_witness:
  "(getEmin SigmaPP soft_field = Inr (10 ^ 24 * eV) \<and> process_E (10 ^ 24 * eV) = []
    \<and> process example_externals SigmaPP soft_field ''EMPairProduction'' empty_world
        = Inl IndexError)
   \<and> (getEmin SigmaICS hard_field = Inr (1 / 10 ^ 40 * me2 / 4 / (1 / 10 ^ 2 * eV))
    \<and> process_E (1 / 10 ^ 40 * me2 / 4 / (1 / 10 ^ 2 * eV)) \<noteq> []
    \<and> process_skin (max (1 / 10 ^ 40 * me2)
         (4 * field_getEmin hard_field
            * hd (process_E (1 / 10 ^ 40 * me2 / 4 / (1 / 10 ^ 2 * eV))))) = []
    \<and> process example_externals SigmaICS hard_field ''EMInverseComptonScattering'' empty_world
        = Inl ValueError)
   \<and> (process raising_externals SigmaICS example_field ''EMInverseComptonScattering'' empty_world
        = Inl EmptyDomain
    \<and> ((\<exists>skin ys E. calc_rate_s raising_externals skin ys E example_field = Inl EmptyDomain)
        \<or> (\<exists>skin ys E. calc_rate_s_cdf raising_externals skin ys E example_field = Inl EmptyDomain)))"
proof -
  define Emin where "Emin = 1 / 10 ^ 40 * me2 / 4 / (1 / 10 ^ 2 * eV)"
  have E1: "process_E (10 ^ 24 * eV) = []"
    using eV_pos by (intro process_E_empty) simp
  obtain xs where xs: "getTabulatedXS SigmaPP process_s_kin = Inr xs"
    using getTabulatedXS_total by blast
  have r: "calc_rate_s example_externals process_s_kin xs [] soft_field = Inr []"
    by (simp add: example_externals_def)
  have t1: "process example_externals SigmaPP soft_field ''EMPairProduction'' empty_world
        = Inl IndexError"
    using empty_domain_errors [where sigma = SigmaPP and field = soft_field
        and Emin = "10 ^ 24 * eV" and xs = xs and ext = example_externals
        and pname = "''EMPairProduction''" and w = empty_world]
      getEmin_soft E1 xs r by blast
  obtain ys where ys: "getTabulatedXS SigmaICS process_s_kin = Inr ys"
    using getTabulatedXS_total by blast
  obtain ys2 where ys2: "getTabulatedXS SigmaICS [] = Inr ys2"
    using getTabulatedXS_total by blast
  have r1: "calc_rate_s example_externals process_s_kin ys (process_E Emin) hard_field
              = Inr (map (\<lambda>e. 0) (process_E Emin))"
    by (simp add: example_externals_def)
  have r2: "calc_rate_s_cdf example_externals [] ys2 (process_E Emin) hard_field
              = Inr (map (\<lambda>e. []) (process_E Emin))"
    by (simp add: example_externals_def)
  have l1: "length (map (\<lambda>e. 0::real) (process_E Emin)) = length (process_E Emin)"
    and l2: "length (map (\<lambda>e. [] :: real list) (process_E Emin)) = length (process_E Emin)"
    by simp_all
  have t2: "process example_externals SigmaICS hard_field ''EMInverseComptonScattering'' empty_world
        = Inl ValueError"
    using empty_domain_errors [where sigma = SigmaICS and field = hard_field
        and Emin = Emin and xs = ys and ext = example_externals
        and pname = "''EMInverseComptonScattering''" and w = empty_world
        and ?skin1.0 = "1 / 10 ^ 40 * me2" and rate = "map (\<lambda>e. 0) (process_E Emin)"
        and ?xs2.0 = ys2 and ?rate2.0 = "map (\<lambda>e. []) (process_E Emin)"]
      getEmin_ICS(2) [folded Emin_def] E_ICS_nonempty [folded Emin_def] getSmin_catalogue(2)
      skin_hard_empty [folded Emin_def] ys ys2 r1 r2 l1 l2
    by blast
  have t3: "(\<exists>skin ys E. calc_rate_s raising_externals skin ys E example_field = Inl EmptyDomain)
        \<or> (\<exists>skin ys E. calc_rate_s_cdf raising_externals skin ys E example_field = Inl EmptyDomain)"
    using empty_domain_errors [where sigma = SigmaICS and field = example_field
        and ext = raising_externals and pname = "''EMInverseComptonScattering''"
        and w = empty_world] raising_run
    by blast
  show ?thesis
    using t1 t2 t3 getEmin_soft E1 getEmin_ICS(2) E_ICS_nonempty skin_hard_empty raising_run
    by blast
qed

text \<open>
  Pair production against a field too soft for it leaves no energy, and the run ends
  with IndexError; inverse Compton scattering against a field that leaves no \<open>s_kin\<close>
  value ends with ValueError. Neither is \<open>EmptyDomain\<close>.
\<close>

theorem empty_domain_errors_counterexample:
  "process_E (10 ^ 24 * eV) = []
   \<and> getEmin SigmaPP soft_field = Inr (10 ^ 24 * eV)
   \<and> process example_externals SigmaPP soft_field ''EMPairProduction'' empty_world
       = Inl IndexError
   \<and> process example_externals SigmaPP soft_field ''EMPairProduction'' empty_world
       \<noteq> Inl EmptyDomain
   \<and> process_skin (max (1 / 10 ^ 40 * me2)
         (4 * field_getEmin hard_field
            * hd (process_E (1 / 10 ^ 40 * me2 / 4 / (1 / 10 ^ 2 * eV))))) = []
   \<and> process example_externals SigmaICS hard_field ''EMInverseComptonScattering'' empty_world
       = Inl ValueError"
proof -
  have "process_E (10 ^ 24 * eV) = []"
    using eV_pos by (intro process_E_empty) simp
  then show ?thesis using getEmin_soft soft_run skin_hard_empty hard_run by simp
qed

theorem process_energy_grid_witness:
  "\<exists>w'. process example_externals SigmaICS example_field ''EMInverseComptonScattering'' empty_world
          = Inr w'
     \<and> (\<exists>E rate.
          E = filter (\<lambda>e. 1 / 10 ^ 40 * me2 / (4 * (1 / 10 ^ 2 * eV)) < e)
                (map (\<lambda>x. x * eV) (logspace 9 23 281))
        \<and> length rate = length E
        \<and> files w' (rate_file ''EMInverseComptonScattering'' example_field)
            = Some (Table (rate_header example_externals ''EMInverseComptonScattering'' example_field)
                      (map2 (\<lambda>e r. [log 10 (e / eV), r]) E rate)))"
proof -
  obtain w' where w: "process example_externals SigmaICS example_field
      ''EMInverseComptonScattering'' empty_world = Inr w'"
    using example_run by blast
  have g: "field_getEmax example_field = 1 / 10 ^ 2 * eV" by (simp add: example_field_def)
  from process_energy_grid [OF w] obtain smin Emin E rate where
    a: "getSmin SigmaICS = Inr smin" "Emin = smin / (4 * field_getEmax example_field)"
       "E = filter (\<lambda>e. Emin < e) (map (\<lambda>x. x * eV) (logspace 9 23 281))"
       "length rate = length E"
       "files w' (rate_file ''EMInverseComptonScattering'' example_field)
            = Some (Table (rate_header example_externals ''EMInverseComptonScattering'' example_field)
                      (map2 (\<lambda>e r. [log 10 (e / eV), r]) E rate))"
    by blast
  have "smin = 1 / 10 ^ 40 * me2" using a(1) getSmin_catalogue(2) by simp
  then have "Emin = 1 / 10 ^ 40 * me2 / (4 * (1 / 10 ^ 2 * eV))"
    by (simp only: a(2) g)
  then show ?thesis using w a(3,4,5) by blast
qed

subsection \<open>Monotonicity of the density-integral table\<close>

lemma example_density_nonneg: "0 \<le> field_getDensity example_field E"
  by (simp add: example_field_def)







end
